theory Spec2Isabelle
  imports Main "HOL-Library.Word"
begin

unbundle bit_operations_syntax

section \<open>Python values and exceptions\<close>

text \<open>
  Python integers are unbounded: \<open>int\<close>. The bitwise operators of Python on integers
  (\<open>|\<close>, \<open>&\<close>, \<open><<\<close>, \<open>>>\<close>) are the two's-complement ones of \<open>int\<close> in HOL
  (\<open>OR\<close>, \<open>AND\<close>, \<open>push_bit\<close>, \<open>drop_bit\<close>). A \<open>bytes\<close> object is a list of
  8-bit words. Every exception that the modelled code can raise is a value of
  \<open>error\<close>; a function that can raise returns \<open>error + 'a\<close>.
\<close>

datatype error =
    AssertionError
  | ValueError
  | KeyError
  | StructError
  | IndexError
  | OSError
  | UnicodeDecodeError
  | RecursionError
  | AttributeError
  | TypeError
  | UnboundLocalError
  | ZeroDivisionError

type_synonym byte = "8 word"
type_synonym bytes = "byte list"

text \<open>Python's slice \<open>b[i:j]\<close> for \<open>0 \<le> i\<close>, \<open>0 \<le> j\<close>: never raises, clips at the end.\<close>

definition slice :: "'a list \<Rightarrow> nat \<Rightarrow> nat \<Rightarrow> 'a list" where
  "slice b i j = take (j - i) (drop i b)"

text \<open>The general slice \<open>b[i:j]\<close>: a negative index counts from the end, and both
  indices are clipped to the list.\<close>

definition py_slice :: "'a list \<Rightarrow> int \<Rightarrow> int \<Rightarrow> 'a list" where
  "py_slice xs i j =
     (let n = int (length xs);
          i' = (if i < 0 then max (n + i) 0 else min i n);
          j' = (if j < 0 then max (n + j) 0 else min j n)
      in take (nat (j' - i')) (drop (nat i') xs))"

text \<open>\<open>range(a, b, step)\<close> for a positive step, as a list.\<close>

definition py_range :: "int \<Rightarrow> int \<Rightarrow> int \<Rightarrow> int list" where
  "py_range a b step = map (\<lambda>i. a + int i * step) [0..<nat ((b - a + step - 1) div step)]"

text \<open>
  The outcome of a call: a value, an exception, or \<open>Timeout\<close> when a \<open>while\<close> loop
  of the source was cut off by the fuel of the model before it ended.
\<close>

datatype 'a result = Return 'a | Raise error | Timeout

definition lift :: "error + 'a \<Rightarrow> 'a result" where
  "lift r = (case r of Inl e \<Rightarrow> Raise e | Inr x \<Rightarrow> Return x)"

text \<open>Sequencing of a stateful call with what follows it: an exception or a timeout
  ends the run with the state reached.\<close>

definition bnd :: "'a result \<times> 's \<Rightarrow> ('a \<Rightarrow> 's \<Rightarrow> 'b result \<times> 's) \<Rightarrow> 'b result \<times> 's" where
  "bnd m k = (case m of
                (Return x, s) \<Rightarrow> k x s
              | (Raise e, s) \<Rightarrow> (Raise e, s)
              | (Timeout, s) \<Rightarrow> (Timeout, s))"

text \<open>
  A \<open>for\<close> loop with a body that can \<open>break\<close> (or \<open>return\<close>): the body gets the
  element, the loop variables and the state, and says whether the loop goes on.
\<close>

datatype 'a ctl = Continue 'a | Break 'a

fun for_each ::
  "'x list \<Rightarrow> ('x \<Rightarrow> 'a \<Rightarrow> 's \<Rightarrow> 'a ctl result \<times> 's) \<Rightarrow> 'a \<Rightarrow> 's \<Rightarrow> 'a ctl result \<times> 's" where
  "for_each [] body acc s = (Return (Continue acc), s)"
| "for_each (x # xs) body acc s =
     (case body x acc s of
        (Return (Continue acc'), s') \<Rightarrow> for_each xs body acc' s'
      | r \<Rightarrow> r)"

definition map_ctl :: "('a \<Rightarrow> 'b) \<Rightarrow> 'a ctl \<Rightarrow> 'b ctl" where
  "map_ctl g c = (case c of Continue a \<Rightarrow> Continue (g a) | Break a \<Rightarrow> Break (g a))"

definition map_res :: "('a \<Rightarrow> 'b) \<Rightarrow> 'a result \<times> 's \<Rightarrow> 'b result \<times> 's" where
  "map_res g m = (case m of
                    (Return x, s) \<Rightarrow> (Return (g x), s)
                  | (Raise e, s) \<Rightarrow> (Raise e, s)
                  | (Timeout, s) \<Rightarrow> (Timeout, s))"

text \<open>What follows a loop inside a generator: it runs when the loop ended by itself; a
  \<open>break\<close> of the consumer leaves the generator at once.\<close>

definition then_ctl ::
  "'a ctl result \<times> 's \<Rightarrow> ('a \<Rightarrow> 'b) \<Rightarrow> ('a \<Rightarrow> 's \<Rightarrow> 'b ctl result \<times> 's) \<Rightarrow> 'b ctl result \<times> 's" where
  "then_ctl m brk k =
     (case m of
        (Return (Continue a), s) \<Rightarrow> k a s
      | (Return (Break a), s) \<Rightarrow> (Return (Break (brk a)), s)
      | (Raise e, s) \<Rightarrow> (Raise e, s)
      | (Timeout, s) \<Rightarrow> (Timeout, s))"

text \<open>The first error of a list of decodings, or all their values (a loop that appends).\<close>

fun sequence :: "(error + 'a) list \<Rightarrow> error + 'a list" where
  "sequence [] = Inr []"
| "sequence (r # rs) =
     (case r of Inl e \<Rightarrow> Inl e
      | Inr x \<Rightarrow> (case sequence rs of Inl e \<Rightarrow> Inl e | Inr xs \<Rightarrow> Inr (x # xs)))"

section \<open>struct: little-endian unsigned integers\<close>

fun le_uint :: "bytes \<Rightarrow> int" where
  "le_uint [] = 0"
| "le_uint (b # bs) = uint b + 256 * le_uint bs"

fun le_bytes :: "nat \<Rightarrow> int \<Rightarrow> bytes" where
  "le_bytes 0 v = []"
| "le_bytes (Suc n) v = word_of_int v # le_bytes n (v div 256)"

text \<open>The unsigned little-endian field of \<open>n\<close> bytes at offset \<open>off\<close> of a buffer.\<close>

definition u_at :: "bytes \<Rightarrow> nat \<Rightarrow> nat \<Rightarrow> int" where
  "u_at b off n = le_uint (slice b off (off + n))"

text \<open>\<open>struct.pack\<close> of one unsigned field of \<open>n\<close> bytes: out of range raises \<open>struct.error\<close>.\<close>

definition pack_uint :: "nat \<Rightarrow> int \<Rightarrow> error + bytes" where
  "pack_uint n v = (if 0 \<le> v \<and> v < 2 ^ (8 * n) then Inr (le_bytes n v) else Inl StructError)"

section \<open>Range and RangeList\<close>

record Range =
  start :: int
  size' :: int

record RangeList =
  items :: "Range list"

definition RangeList_init :: RangeList where
  "RangeList_init = \<lparr>items = []\<rparr>"

text \<open>
  \<open>RangeList.add\<close>: the last record is mutated in place when the new range starts at
  its end; the \<open>assert\<close> is the only way to fail.
\<close>

definition add :: "RangeList \<Rightarrow> int \<Rightarrow> int \<Rightarrow> error + RangeList" where
  "add rl st sz =
     (if length (items rl) \<noteq> 0 then
        (let l = last (items rl) in
         if start l + size' l = st then
           Inr (rl\<lparr>items := butlast (items rl) @ [l\<lparr>size' := size' l + sz\<rparr>]\<rparr>)
         else if start l + size' l < st then
           Inr (rl\<lparr>items := items rl @ [\<lparr>start = st, size' = sz\<rparr>]\<rparr>)
         else Inl AssertionError)
      else Inr (rl\<lparr>items := items rl @ [\<lparr>start = st, size' = sz\<rparr>]\<rparr>))"

text \<open>A sequence of \<open>add\<close> calls on one list; the first failing call ends the run.\<close>

fun add_all :: "RangeList \<Rightarrow> (int \<times> int) list \<Rightarrow> error + RangeList" where
  "add_all rl [] = Inr rl"
| "add_all rl ((st, sz) # cs) =
     (case add rl st sz of Inl e \<Rightarrow> Inl e | Inr rl' \<Rightarrow> add_all rl' cs)"

text \<open>The end of the last record, or nothing for the empty list.\<close>

definition last_end :: "RangeList \<Rightarrow> int option" where
  "last_end rl = (if items rl = [] then None
                  else Some (start (last (items rl)) + size' (last (items rl))))"

text \<open>The preorder contract of a call sequence: each start is at or after the end of
  the record that is last when the call is made.\<close>

fun preorder :: "RangeList \<Rightarrow> (int \<times> int) list \<Rightarrow> bool" where
  "preorder rl [] = True"
| "preorder rl ((st, sz) # cs) =
     ((case last_end rl of None \<Rightarrow> True | Some e \<Rightarrow> e \<le> st) \<and>
      (case add rl st sz of Inl e \<Rightarrow> False | Inr rl' \<Rightarrow> preorder rl' cs))"

definition range_set :: "Range \<Rightarrow> int set" where
  "range_set r = {start r ..< start r + size' r}"

definition sorted_by_start :: "Range list \<Rightarrow> bool" where
  "sorted_by_start rs = sorted (map start rs)"

definition pairwise_disjoint :: "Range list \<Rightarrow> bool" where
  "pairwise_disjoint rs =
     (\<forall>i < length rs. \<forall>j < length rs. i \<noteq> j \<longrightarrow> range_set (rs ! i) \<inter> range_set (rs ! j) = {})"

definition no_adjacent :: "Range list \<Rightarrow> bool" where
  "no_adjacent rs =
     (\<forall>i. Suc i < length rs \<longrightarrow> start (rs ! i) + size' (rs ! i) \<noteq> start (rs ! Suc i))"

section \<open>RescueMap\<close>

datatype Status = NON_TRIED | NON_TRIMMED | NON_SCRAPED | BAD | FINISHED

type_synonym entry = "int \<times> int \<times> Status"

record RescueMap =
  ranges :: "entry list"
  offset :: int

text \<open>
  \<open>bisect.bisect_left(a, (position,))\<close> of the Python library. The elements of \<open>a\<close>
  are 3-tuples and the probe is a 1-tuple, so \<open>a[mid] < x\<close> compares the first
  components and, when they are equal, is false (the shorter tuple is the smaller).
\<close>

function bisect_left :: "entry list \<Rightarrow> int \<Rightarrow> nat \<Rightarrow> nat \<Rightarrow> nat" where
  "bisect_left a x lo hi =
     (if lo < hi then
        (let mid = (lo + hi) div 2 in
         if fst (a ! mid) < x then bisect_left a x (mid + 1) hi
         else bisect_left a x lo mid)
      else lo)"
  by pat_completeness auto
termination
  by (relation "measure (\<lambda>(a, x, lo, hi). hi - lo)") auto

declare bisect_left.simps [simp del]

text \<open>\<open>RescueMap.__getitem__\<close> at an integer position (the slice branch calls it per index).\<close>

definition getitem :: "RescueMap \<Rightarrow> int \<Rightarrow> error + Status" where
  "getitem m position0 =
     (let position = position0 + offset m;
          i = bisect_left (ranges m) position 0 (length (ranges m))
      in if i \<noteq> length (ranges m) \<and> fst (ranges m ! i) = position then
           Inr (snd (snd (ranges m ! i)))
         else if i \<noteq> 0 then
           (let item = ranges m ! (i - 1) in
            if fst item \<le> position \<and> fst item + fst (snd item) > position
            then Inr (snd (snd item)) else Inl AssertionError)
         else Inl ValueError)"

definition RescueMap_size :: "RescueMap \<Rightarrow> int" where
  "RescueMap_size m = fst (last (ranges m)) + fst (snd (last (ranges m)))"

text \<open>The invariant of the data model: at least one entry, positive sizes, each entry
  starts where the one before it ends.\<close>

fun contiguous :: "entry list \<Rightarrow> bool" where
  "contiguous [] = True"
| "contiguous [e] = (0 < fst (snd e))"
| "contiguous (e # e' # es) =
     (0 < fst (snd e) \<and> fst e' = fst e + fst (snd e) \<and> contiguous (e' # es))"

definition rescue_map_inv :: "RescueMap \<Rightarrow> bool" where
  "rescue_map_inv m = (ranges m \<noteq> [] \<and> contiguous (ranges m))"

section \<open>Keys\<close>

datatype ItemType = STAT | INDIRECT | DIRECT | DIRECTORY | ANY

text \<open>The integer value of the \<open>IntEnum\<close>, and \<open>ItemType(n)\<close>, which raises
  \<open>ValueError\<close> on any other integer.\<close>

fun ItemType_value :: "ItemType \<Rightarrow> int" where
  "ItemType_value STAT = 0"
| "ItemType_value INDIRECT = 1"
| "ItemType_value DIRECT = 2"
| "ItemType_value DIRECTORY = 3"
| "ItemType_value ANY = 15"

definition ItemType_of :: "int \<Rightarrow> ItemType option" where
  "ItemType_of n =
     (if n = 0 then Some STAT else if n = 1 then Some INDIRECT else if n = 2 then Some DIRECT
      else if n = 3 then Some DIRECTORY else if n = 15 then Some ANY else None)"

definition version1_id2type :: "int \<Rightarrow> ItemType option" where
  "version1_id2type n =
     (if n = 0 then Some STAT else if n = 0xFFFFFFFE then Some INDIRECT
      else if n = 0xFFFFFFFF then Some DIRECT else if n = 500 then Some DIRECTORY
      else if n = 555 then Some ANY else None)"

fun version1_type2id :: "ItemType \<Rightarrow> int" where
  "version1_type2id STAT = 0"
| "version1_type2id INDIRECT = 0xFFFFFFFE"
| "version1_type2id DIRECT = 0xFFFFFFFF"
| "version1_type2id DIRECTORY = 500"
| "version1_type2id ANY = 555"

record Key =
  dirid :: int
  objid :: int
  offset_k :: int
  type :: ItemType
  version :: int

definition mkKey :: "int \<Rightarrow> int \<Rightarrow> int \<Rightarrow> ItemType \<Rightarrow> int \<Rightarrow> Key" where
  "mkKey d ob off t v = \<lparr>dirid = d, objid = ob, offset_k = off, type = t, version = v\<rparr>"

text \<open>
  \<open>Key.unpack(b, version)\<close>: \<open>struct.unpack("<IIQ", b)\<close> raises unless \<open>b\<close> has 16
  bytes; the dictionary lookup raises \<open>KeyError\<close>, the enum constructor \<open>ValueError\<close>.
\<close>

definition unpack :: "bytes \<Rightarrow> int option \<Rightarrow> error + Key" where
  "unpack b ver =
     (if length b \<noteq> 16 then Inl StructError
      else
        (let p0 = le_uint (slice b 0 4);
             p1 = le_uint (slice b 4 8);
             p2 = le_uint (slice b 8 16);
             v = (case ver of
                    None \<Rightarrow> (let assumed_type = p2 AND 0xF
                             in if assumed_type = 0 \<or> assumed_type = 15 then 1 else 2)
                  | Some v' \<Rightarrow> v');
             offset_type = p2
         in if v = 1 then
              (case version1_id2type (drop_bit 32 offset_type) of
                 None \<Rightarrow> Inl KeyError
               | Some t \<Rightarrow> Inr (mkKey p0 p1 (offset_type AND 0xFFFFFFFF) t 1))
            else
              (case ItemType_of (drop_bit 60 offset_type) of
                 None \<Rightarrow> Inl ValueError
               | Some t \<Rightarrow> Inr (mkKey p0 p1 (offset_type AND 0x0FFFFFFFFFFFFFFF) t 2))))"

text \<open>\<open>Key.pack\<close>: the three fields are packed left to right, each range-checked.\<close>

definition pack :: "Key \<Rightarrow> error + bytes" where
  "pack k =
     (let p2 = (if version k = 1
                then offset_k k OR push_bit 32 (version1_type2id (type k))
                else offset_k k OR push_bit 60 (ItemType_value (type k)))
      in case pack_uint 4 (dirid k) of Inl e \<Rightarrow> Inl e
         | Inr b0 \<Rightarrow>
        (case pack_uint 4 (objid k) of Inl e \<Rightarrow> Inl e
         | Inr b1 \<Rightarrow>
        (case pack_uint 8 p2 of Inl e \<Rightarrow> Inl e
         | Inr b2 \<Rightarrow> Inr (b0 @ b1 @ b2))))"

text \<open>A valid key: unsigned 32-bit ids, and an offset that fits its version's field.\<close>

definition valid_key :: "Key \<Rightarrow> bool" where
  "valid_key k =
     (0 \<le> dirid k \<and> dirid k < 2 ^ 32 \<and> 0 \<le> objid k \<and> objid k < 2 ^ 32 \<and> 0 \<le> offset_k k \<and>
      ((version k = 1 \<and> offset_k k < 2 ^ 32) \<or> (version k = 2 \<and> offset_k k < 2 ^ 60)))"

text \<open>
  Keys are named tuples: they compare as tuples, the item type by its integer value.
\<close>

definition key_less :: "Key \<Rightarrow> Key \<Rightarrow> bool" where
  "key_less a b =
     (dirid a < dirid b \<or> (dirid a = dirid b \<and>
     (objid a < objid b \<or> (objid a = objid b \<and>
     (offset_k a < offset_k b \<or> (offset_k a = offset_k b \<and>
     (ItemType_value (type a) < ItemType_value (type b) \<or>
        (ItemType_value (type a) = ItemType_value (type b) \<and>
     version a < version b))))))))"

definition key_le :: "Key \<Rightarrow> Key \<Rightarrow> bool" where
  "key_le a b = (key_less a b \<or> a = b)"

section \<open>Superblock\<close>

record Superblock =
  block_count :: int
  free_blocks :: int
  root_block :: int
  journal_block :: int
  journal_device :: int
  orig_journal_size :: int
  journal_trans_max :: int
  journal_magic :: int
  journal_max_batch :: int
  journal_max_commit_age :: int
  journal_max_trans_age :: int
  blocksize :: int
  oid_max_size :: int
  oid_current_size :: int
  state :: int
  magic_string :: bytes
  hash_function :: int
  tree_height :: int
  bitmap_number :: int
  version_sb :: int
  inode_generation :: int

text \<open>\<open>struct.Struct("<11IHHHH12sIHHH2xI")\<close>: 80 bytes.\<close>

definition Superblock_unpack :: "bytes \<Rightarrow> error + Superblock" where
  "Superblock_unpack b =
     (if length b \<noteq> 80 then Inl StructError
      else Inr \<lparr>block_count = u_at b 0 4, free_blocks = u_at b 4 4, root_block = u_at b 8 4,
                journal_block = u_at b 12 4, journal_device = u_at b 16 4,
                orig_journal_size = u_at b 20 4, journal_trans_max = u_at b 24 4,
                journal_magic = u_at b 28 4, journal_max_batch = u_at b 32 4,
                journal_max_commit_age = u_at b 36 4, journal_max_trans_age = u_at b 40 4,
                blocksize = u_at b 44 2, oid_max_size = u_at b 46 2,
                oid_current_size = u_at b 48 2, state = u_at b 50 2,
                magic_string = slice b 52 64, hash_function = u_at b 64 4,
                tree_height = u_at b 68 2, bitmap_number = u_at b 70 2, version_sb = u_at b 72 2,
                inode_generation = u_at b 76 4\<rparr>)"

section \<open>Items\<close>

record ItemHdr =
  key_h :: Key
  count_h :: int
  length_h :: int
  location :: int
  version_h :: int

text \<open>\<open>struct.Struct("<16sHHHH")\<close>: 24 bytes; the key is read with version
  \<open>version + 1\<close>.\<close>

definition ItemHdr_unpack :: "bytes \<Rightarrow> error + ItemHdr" where
  "ItemHdr_unpack b =
     (if length b \<noteq> 24 then Inl StructError
      else case unpack (slice b 0 16) (Some (u_at b 22 2 + 1)) of
             Inl e \<Rightarrow> Inl e
           | Inr k \<Rightarrow> Inr \<lparr>key_h = k, count_h = u_at b 16 2, length_h = u_at b 18 2,
                           location = u_at b 20 2, version_h = u_at b 22 2\<rparr>)"

datatype FileType = SOCKET | LINK | REGULAR | BLOCK | DIRECTORY' | CHARACTER | FIF0

text \<open>\<open>FileType(n)\<close>: \<open>ValueError\<close> for an integer that is no member.\<close>

definition FileType_of :: "int \<Rightarrow> FileType option" where
  "FileType_of n =
     (if n = 12 then Some SOCKET else if n = 10 then Some LINK else if n = 8 then Some REGULAR
      else if n = 6 then Some BLOCK else if n = 4 then Some DIRECTORY'
      else if n = 2 then Some CHARACTER else if n = 1 then Some FIF0 else None)"

record Stat =
  mode :: int
  filetype :: FileType
  numlinks :: int
  uid :: int
  gid :: int
  size_s :: int
  atime :: int
  mtime :: int
  ctime :: int

text \<open>
  \<open>Stat.unpack\<close>: the version 1 layout \<open>"<HHHH6I"\<close> has 32 bytes, the version 2
  layout \<open>"<H2xIQ7I"\<close> 44; any other length raises in \<open>struct.unpack\<close>.
\<close>

definition Stat_unpack :: "bytes \<Rightarrow> error + Stat" where
  "Stat_unpack b =
     (if length b = 32 then
        (case FileType_of (drop_bit 12 (u_at b 0 2)) of
           None \<Rightarrow> Inl ValueError
         | Some ft \<Rightarrow>
             Inr \<lparr>mode = u_at b 0 2 AND 0xFFF, filetype = ft, numlinks = u_at b 2 2,
                  uid = u_at b 4 2, gid = u_at b 6 2, size_s = u_at b 8 4,
                  atime = u_at b 12 4, mtime = u_at b 16 4, ctime = u_at b 20 4\<rparr>)
      else if length b \<noteq> 44 then Inl StructError
      else
        (case FileType_of (drop_bit 12 (u_at b 0 2)) of
           None \<Rightarrow> Inl ValueError
         | Some ft \<Rightarrow>
             Inr \<lparr>mode = u_at b 0 2 AND 0xFFF, filetype = ft, numlinks = u_at b 4 4,
                  uid = u_at b 16 4, gid = u_at b 20 4, size_s = u_at b 8 8,
                  atime = u_at b 24 4, mtime = u_at b 28 4, ctime = u_at b 32 4\<rparr>))"

record DirectoryEntry =
  offset_e :: int
  dirid_e :: int
  objid_e :: int
  name :: bytes
  state_e :: int

record Item =
  key :: Key
  count :: int
  version_i :: int
  body :: bytes

text \<open>
  The \<open>while\<close> loop of \<open>Item.directory_list\<close> that looks for the end of a name:
  \<open>body[locationEnd]\<close> raises \<open>IndexError\<close> beyond the body.
\<close>

function name_end :: "bytes \<Rightarrow> int \<Rightarrow> int \<Rightarrow> error + int" where
  "name_end b implicitEnd locationEnd =
     (if locationEnd < implicitEnd then
        (if int (length b) \<le> locationEnd then Inl IndexError
         else if b ! nat locationEnd \<noteq> 0 then name_end b implicitEnd (locationEnd + 1)
         else Inr locationEnd)
      else Inr locationEnd)"
  by pat_completeness auto
termination
  by (relation "measure (\<lambda>(b, implicitEnd, locationEnd). nat (implicitEnd - locationEnd))") auto

declare name_end.simps [simp del]

text \<open>The \<open>for\<close> loop of \<open>Item.directory_list\<close> over the entry headers
  (\<open>struct.Struct("<IIIHH")\<close>, 16 bytes), with \<open>implicitEnd\<close> carried along.\<close>

fun dir_entries :: "bytes \<Rightarrow> int list \<Rightarrow> int \<Rightarrow> error + DirectoryEntry list" where
  "dir_entries b [] implicitEnd = Inr []"
| "dir_entries b (pos # ps) implicitEnd =
     (let h = py_slice b pos (pos + 16) in
      if length h \<noteq> 16 then Inl StructError
      else
        (let loc = u_at h 12 2 in
         case name_end b implicitEnd loc of
           Inl e \<Rightarrow> Inl e
         | Inr locationEnd \<Rightarrow>
             (case dir_entries b ps loc of
                Inl e \<Rightarrow> Inl e
              | Inr es \<Rightarrow>
                  Inr (\<lparr>offset_e = u_at h 0 4, dirid_e = u_at h 4 4, objid_e = u_at h 8 4,
                        name = py_slice b loc locationEnd, state_e = u_at h 14 2\<rparr> # es))))"

definition Item_directory_list :: "Item \<Rightarrow> error + DirectoryEntry list" where
  "Item_directory_list it =
     dir_entries (body it) (py_range 0 (count it * 16) 16) (int (length (body it)))"

definition stat :: "Item \<Rightarrow> error + Stat" where
  "stat it = Stat_unpack (body it)"

text \<open>\<open>array.array("I", body)\<close>: \<open>ValueError\<close> unless the length is a multiple of 4;
  the items are read in the byte order of the machine, little-endian.\<close>

definition indirect_blocks :: "Item \<Rightarrow> error + int list" where
  "indirect_blocks it =
     (if length (body it) mod 4 \<noteq> 0 then Inl ValueError
      else Inr (map (\<lambda>i. u_at (body it) (4 * i) 4) [0..<length (body it) div 4]))"

section \<open>Nodes\<close>

record Node =
  level :: int
  item_count :: int
  free_space :: int
  payload :: bytes

text \<open>\<open>struct.Struct("<HHHxx16x4072s")\<close>: 4096 bytes.\<close>

definition Node_unpack :: "bytes \<Rightarrow> error + Node" where
  "Node_unpack b =
     (if length b \<noteq> 4096 then Inl StructError
      else Inr \<lparr>level = u_at b 0 2, item_count = u_at b 2 2, free_space = u_at b 4 2,
                payload = slice b 24 4096\<rparr>)"

text \<open>\<open>Node.ptr_struct.unpack_from(payload, off)[0]\<close> (\<open>"<IH2x"\<close>, 8 bytes): raises
  when fewer than 8 bytes are left at \<open>off\<close>. The offsets used are never negative.\<close>

definition ptr_at :: "bytes \<Rightarrow> int \<Rightarrow> error + int" where
  "ptr_at p off =
     (if int (length p) < off + 8 then Inl StructError else Inr (u_at p (nat off) 4))"

text \<open>
  The key scans of \<open>ptr_find\<close> and \<open>ptr_find_range\<close>: from index \<open>i\<close>, over \<open>r\<close>
  more keys, the index of the first key (read with the version inferred) at which the
  loop breaks, or the index after the last one.
\<close>

fun scan_keys :: "(Key \<Rightarrow> bool) \<Rightarrow> bytes \<Rightarrow> nat \<Rightarrow> nat \<Rightarrow> error + nat" where
  "scan_keys brk p i 0 = Inr i"
| "scan_keys brk p i (Suc r) =
     (case unpack (py_slice p (16 * int i) (16 * int i + 16)) None of
        Inl e \<Rightarrow> Inl e
      | Inr ikey \<Rightarrow> if brk ikey then Inr i else scan_keys brk p (i + 1) r)"

text \<open>\<open>Node.ptr_find\<close>. With no key in the node the \<open>else\<close> of the \<open>for\<close> increments
  a variable that was never bound.\<close>

definition ptr_find :: "Node \<Rightarrow> Key \<Rightarrow> error + int option" where
  "ptr_find nd k =
     (if level nd = 1 then Inr None
      else if type k \<noteq> STAT then Inl AssertionError
      else if item_count nd = 0 then Inl UnboundLocalError
      else case scan_keys (\<lambda>ikey. key_less k ikey) (payload nd) 0 (nat (item_count nd)) of
             Inl e \<Rightarrow> Inl e
           | Inr i \<Rightarrow>
               (case ptr_at (payload nd) (item_count nd * 16 + int i * 8) of
                  Inl e \<Rightarrow> Inl e
                | Inr b \<Rightarrow> Inr (Some b)))"

text \<open>\<open>Node.ptr_find_range\<close>: \<open>keyStart\<close> inclusive, \<open>keyEnd\<close> exclusive. The second
  loop goes on at the byte position where the first one stopped.\<close>

definition ptr_find_range :: "Node \<Rightarrow> Key \<Rightarrow> Key \<Rightarrow> error + int list option" where
  "ptr_find_range nd keyStart keyEnd =
     (if level nd = 1 then Inr None
      else if item_count nd = 0 then Inl UnboundLocalError
      else case scan_keys (\<lambda>tmpkey. key_less keyStart tmpkey) (payload nd) 0
                  (nat (item_count nd)) of
             Inl e \<Rightarrow> Inl e
           | Inr start' \<Rightarrow>
               (case scan_keys (\<lambda>tmpkey. key_le keyEnd tmpkey) (payload nd) start'
                       (nat (item_count nd) - start') of
                  Inl e \<Rightarrow> Inl e
                | Inr end' \<Rightarrow>
                    (case sequence (map (\<lambda>i. ptr_at (payload nd) (item_count nd * 16 + i * 8))
                                     (py_range (int start') (int end' + 1) 1)) of
                       Inl e \<Rightarrow> Inl e
                     | Inr found \<Rightarrow> Inr (Some found))))"

definition ptr_blocks :: "Node \<Rightarrow> error + int list" where
  "ptr_blocks nd =
     (if level nd = 1 then Inr []
      else sequence (map (\<lambda>i. ptr_at (payload nd) (item_count nd * 16 + i * 8))
                      (py_range 0 (item_count nd + 1) 1)))"

text \<open>The item whose header is at \<open>pos\<close> of the payload: the body slice never raises.\<close>

definition item_at :: "Node \<Rightarrow> int \<Rightarrow> error + Item" where
  "item_at nd pos =
     (case ItemHdr_unpack (py_slice (payload nd) pos (pos + 24)) of
        Inl e \<Rightarrow> Inl e
      | Inr hdr \<Rightarrow>
          Inr \<lparr>key = key_h hdr, count = count_h hdr, version_i = version_h hdr,
               body = py_slice (payload nd) (location hdr - 24)
                        (location hdr - 24 + length_h hdr)\<rparr>)"

definition items_n :: "Node \<Rightarrow> error + Item list" where
  "items_n nd = sequence (map (item_at nd) (py_range 0 (item_count nd * 24) 24))"

fun item_find_loop :: "Node \<Rightarrow> bytes \<Rightarrow> int list \<Rightarrow> error + Item option" where
  "item_find_loop nd kb [] = Inr None"
| "item_find_loop nd kb (pos # ps) =
     (if kb = py_slice (payload nd) pos (pos + 16) then
        (case item_at nd pos of Inl e \<Rightarrow> Inl e | Inr it \<Rightarrow> Inr (Some it))
      else item_find_loop nd kb ps)"

definition item_find :: "Node \<Rightarrow> Key \<Rightarrow> error + Item option" where
  "item_find nd k =
     (case pack k of
        Inl e \<Rightarrow> Inl e
      | Inr kb \<Rightarrow> item_find_loop nd kb (py_range 0 (item_count nd * 24) 24))"

text \<open>\<open>Node.item_find_range\<close>: every header is decoded, in order; the items whose key
  is in the range are kept.\<close>

definition item_find_range :: "Node \<Rightarrow> Key \<Rightarrow> Key \<Rightarrow> error + Item list" where
  "item_find_range nd keyStart keyEnd =
     (case sequence (map (item_at nd) (py_range 0 (item_count nd * 24) 24)) of
        Inl e \<Rightarrow> Inl e
      | Inr its \<Rightarrow>
          Inr (filter (\<lambda>it. key_le keyStart (key it) \<and> key_less (key it) keyEnd) its))"

definition indirect_item_blocks :: "Node \<Rightarrow> error + int list" where
  "indirect_item_blocks nd =
     (if level nd \<noteq> 1 then Inr []
      else case items_n nd of
             Inl e \<Rightarrow> Inl e
           | Inr its \<Rightarrow>
               (case sequence (map indirect_blocks (filter (\<lambda>it. type (key it) = INDIRECT) its)) of
                  Inl e \<Rightarrow> Inl e
                | Inr bss \<Rightarrow> Inr (concat bss)))"

section \<open>The reader\<close>

text \<open>
  The state of a run: the slots of the \<open>ReiserFs\<close> object, the cache that
  \<open>functools.lru_cache\<close> keeps for \<open>readNode\<close> (most recently used first), and what
  was written to standard output and standard error. Text is kept as the bytes of its
  UTF-8 encoding. The last field is not part of the program: it logs, pass by pass, the
  block numbers that the tree walks pop from their heap, so that the order of the reads
  can be stated.
\<close>

datatype out = Line string | Bytes bytes

record ReiserFs =
  f :: bytes
  rescue_map :: RescueMap
  sectors :: "int list"
  block_size :: int
  sectors_per_block :: int
  superblock :: "Superblock option"
  incomplete :: bool
  partition_start :: int
  readNode_cache :: "((int \<times> bool option) \<times> bool \<times> Node option) list"
  stdout :: "out list"
  stderr :: "string list"
  pop_log :: "int list list"

text \<open>\<open>ReiserFs.__init__\<close>, and the object as \<open>main\<close> sets it up for a partition
  that starts at byte \<open>ps\<close> of the image.\<close>

definition ReiserFs_new :: "bytes \<Rightarrow> RescueMap \<Rightarrow> ReiserFs" where
  "ReiserFs_new file rmap =
     \<lparr>f = file, rescue_map = rmap, sectors = [], block_size = 512,
      sectors_per_block = 512 div 512, superblock = None, incomplete = False,
      partition_start = 0, readNode_cache = [], stdout = [], stderr = [], pop_log = []\<rparr>"

definition main_fs :: "bytes \<Rightarrow> RescueMap \<Rightarrow> int \<Rightarrow> ReiserFs" where
  "main_fs file rmap ps = (ReiserFs_new file (rmap\<lparr>offset := ps\<rparr>))\<lparr>partition_start := ps\<rparr>"

text \<open>\<open>readBlock\<close>: \<open>seek\<close> refuses a negative position; \<open>read\<close> returns what is
  left of the file when it is shorter. The block size is never negative.\<close>

definition readBlock :: "ReiserFs \<Rightarrow> int \<Rightarrow> error + bytes" where
  "readBlock fs block_num =
     (let pos = partition_start fs + block_num * block_size fs in
      if pos < 0 then Inl OSError
      else Inr (take (nat (block_size fs)) (drop (nat pos) (f fs))))"

definition init :: "ReiserFs \<Rightarrow> bool result \<times> ReiserFs" where
  "init fs0 =
     (let fs = fs0\<lparr>sectors := sectors fs0 @ [65536 div 512]\<rparr> in
      case getitem (rescue_map fs) 65536 of
        Inl e \<Rightarrow> (Raise e, fs)
      | Inr st \<Rightarrow>
          if st \<noteq> FINISHED then (Return False, fs)
          else if block_size fs = 0 then (Raise ZeroDivisionError, fs)
          else
            (case readBlock fs (65536 div block_size fs) of
               Inl e \<Rightarrow> (Raise e, fs)
             | Inr b \<Rightarrow>
                 (case Superblock_unpack (py_slice b 0 0x50) of
                    Inl e \<Rightarrow> (Raise e, fs)
                  | Inr sb \<Rightarrow>
                      (Return True,
                       fs\<lparr>superblock := Some sb, block_size := blocksize sb,
                          sectors_per_block := blocksize sb div 512\<rparr>))))"

fun all_finished :: "RescueMap \<Rightarrow> int list \<Rightarrow> error + bool" where
  "all_finished m [] = Inr True"
| "all_finished m (sector # ss) =
     (case getitem m sector of
        Inl e \<Rightarrow> Inl e
      | Inr st \<Rightarrow> if st \<noteq> FINISHED then Inr False else all_finished m ss)"

definition isBlockComplete :: "ReiserFs \<Rightarrow> int \<Rightarrow> error + bool" where
  "isBlockComplete fs block_num =
     (let start_sector = block_num * block_size fs in
      all_finished (rescue_map fs) (py_range start_sector (start_sector + block_size fs) 512))"

text \<open>\<open>math.ceil(x / 512)\<close> for an integer \<open>x\<close>.\<close>

definition ceil_div512 :: "int \<Rightarrow> int" where
  "ceil_div512 x = (x + 511) div 512"

text \<open>The loop of \<open>readNode\<close> over the occupied sectors of the block; the map is
  consulted only while no unfinished sector was seen.\<close>

fun readNode_sectors :: "int \<Rightarrow> int list \<Rightarrow> bool \<Rightarrow> ReiserFs \<Rightarrow> bool result \<times> ReiserFs" where
  "readNode_sectors block [] inc fs = (Return inc, fs)"
| "readNode_sectors block (off # offs) inc fs =
     (if off = 0 then readNode_sectors block offs inc fs
      else
        (let fs' = fs\<lparr>sectors := sectors fs @ [block * sectors_per_block fs + off]\<rparr> in
         if \<not> inc then
           (case getitem (rescue_map fs') (block * block_size fs' + off * 512) of
              Inl e \<Rightarrow> (Raise e, fs')
            | Inr st \<Rightarrow> readNode_sectors block offs (st \<noteq> FINISHED) fs')
         else readNode_sectors block offs inc fs'))"

text \<open>
  The body of \<open>readNode\<close>. The offsets of the occupied sectors are collected in a set;
  CPython iterates a set of such small non-negative integers in ascending order.
\<close>

definition readNode_body :: "int \<Rightarrow> bool \<Rightarrow> ReiserFs \<Rightarrow> (bool \<times> Node option) result \<times> ReiserFs" where
  "readNode_body block partial_only fs0 =
     (let fs = (if \<not> partial_only
                then fs0\<lparr>sectors := sectors fs0 @ [block * sectors_per_block fs0]\<rparr> else fs0) in
      case getitem (rescue_map fs) (block * block_size fs) of
        Inl e \<Rightarrow> (Raise e, fs)
      | Inr st \<Rightarrow>
          if st \<noteq> FINISHED then (Return (False, None), fs)
          else
            (case readBlock fs block of
               Inl e \<Rightarrow> (Raise e, fs)
             | Inr b \<Rightarrow>
                 (case Node_unpack b of
                    Inl e \<Rightarrow> (Raise e, fs)
                  | Inr node \<Rightarrow>
                      (let node_size_left =
                             (if level node = 1 then 24 + item_count node * 24
                              else block_size fs - free_space node);
                           node_size_right =
                             (if level node = 1
                              then block_size fs - node_size_left - free_space node else 0);
                           offs = remdups (sort
                             (py_range 1 (ceil_div512 node_size_left) 1 @
                              py_range (sectors_per_block fs - ceil_div512 node_size_right)
                                (sectors_per_block fs) 1))
                       in bnd (readNode_sectors block offs False fs)
                            (\<lambda>inc fs'. (Return (\<not> inc, Some node), fs'))))))"

text \<open>
  \<open>readNode\<close> under \<open>lru_cache(maxsize=128)\<close>. The key of a call is the block and the
  \<open>partial_only\<close> argument as it was passed: \<open>None\<close> when it was left out, \<open>Some p\<close>
  when it was given by keyword. A hit returns the stored result without running the
  body; a result is stored only when the body returns.
\<close>

definition readNode :: "int \<Rightarrow> bool option \<Rightarrow> ReiserFs \<Rightarrow> (bool \<times> Node option) result \<times> ReiserFs" where
  "readNode block partial_only fs =
     (case map_of (readNode_cache fs) (block, partial_only) of
        Some v \<Rightarrow>
          (Return v,
           fs\<lparr>readNode_cache := ((block, partial_only), v) #
                 filter (\<lambda>e. fst e \<noteq> (block, partial_only)) (readNode_cache fs)\<rparr>)
      | None \<Rightarrow>
          bnd (readNode_body block (case partial_only of None \<Rightarrow> False | Some p \<Rightarrow> p) fs)
            (\<lambda>v fs'. (Return v,
               fs'\<lparr>readNode_cache := take 128 (((block, partial_only), v) # readNode_cache fs')\<rparr>)))"

text \<open>\<open>find_item\<close>: the \<open>while True\<close> loop runs for at most \<open>fuel\<close> nodes.\<close>

fun find_item_loop :: "nat \<Rightarrow> Key \<Rightarrow> int \<Rightarrow> ReiserFs \<Rightarrow> Item option result \<times> ReiserFs" where
  "find_item_loop 0 k treeBlock fs = (Timeout, fs)"
| "find_item_loop (Suc n) k treeBlock fs =
     bnd (readNode treeBlock None fs)
       (\<lambda>(complete, node) fs.
          if \<not> complete then (Return None, fs)
          else case node of
                 None \<Rightarrow> (Raise AttributeError, fs)
               | Some nd \<Rightarrow>
                   if level nd = 1 then (lift (item_find nd k), fs)
                   else (case ptr_find nd k of
                           Inl e \<Rightarrow> (Raise e, fs)
                         | Inr None \<Rightarrow> (Raise TypeError, fs)
                         | Inr (Some b) \<Rightarrow> find_item_loop n k b fs))"

definition find_item :: "nat \<Rightarrow> Key \<Rightarrow> ReiserFs \<Rightarrow> Item option result \<times> ReiserFs" where
  "find_item fuel k fs =
     (case superblock fs of
        None \<Rightarrow> (Raise AttributeError, fs)
      | Some sb \<Rightarrow> find_item_loop fuel k (root_block sb) fs)"

text \<open>
  Generators are modelled by the loop that consumes them: a generator takes the body of
  the \<open>for\<close> loop, the loop variables and the state, and runs the body on each value
  it yields, in order, between its own steps. When the body breaks, the generator is
  not resumed. \<open>iter_items_in_range\<close> is recursive in the source: beyond \<open>d\<close> nested
  calls the interpreter raises \<open>RecursionError\<close>.
\<close>

fun iter_items_in_range ::
  "nat \<Rightarrow> Key \<Rightarrow> Key \<Rightarrow> int \<Rightarrow> (Item \<Rightarrow> 'a \<Rightarrow> ReiserFs \<Rightarrow> 'a ctl result \<times> ReiserFs) \<Rightarrow>
   'a \<Rightarrow> ReiserFs \<Rightarrow> 'a ctl result \<times> ReiserFs" where
  "iter_items_in_range 0 keyStart keyEnd treeBlock consumer acc fs = (Raise RecursionError, fs)"
| "iter_items_in_range (Suc d) keyStart keyEnd treeBlock consumer acc fs =
     bnd (readNode treeBlock None fs)
       (\<lambda>(complete, node) fs.
          if \<not> complete then (Return (Continue acc), fs)
          else case node of
                 None \<Rightarrow> (Raise AttributeError, fs)
               | Some nd \<Rightarrow>
                   if level nd = 1 then
                     (case item_find_range nd keyStart keyEnd of
                        Inl e \<Rightarrow> (Raise e, fs)
                      | Inr its \<Rightarrow> for_each its consumer acc fs)
                   else
                     (case ptr_find_range nd keyStart keyEnd of
                        Inl e \<Rightarrow> (Raise e, fs)
                      | Inr None \<Rightarrow> (Raise TypeError, fs)
                      | Inr (Some blocks) \<Rightarrow>
                          for_each blocks
                            (\<lambda>b acc fs. iter_items_in_range d keyStart keyEnd b consumer acc fs)
                            acc fs))"

text \<open>The call with \<open>treeBlock=None\<close>: the scan starts at the root block.\<close>

definition iter_items_root ::
  "nat \<Rightarrow> Key \<Rightarrow> Key \<Rightarrow> (Item \<Rightarrow> 'a \<Rightarrow> ReiserFs \<Rightarrow> 'a ctl result \<times> ReiserFs) \<Rightarrow>
   'a \<Rightarrow> ReiserFs \<Rightarrow> 'a ctl result \<times> ReiserFs" where
  "iter_items_root d keyStart keyEnd consumer acc fs =
     (case superblock fs of
        None \<Rightarrow> (Raise AttributeError, fs)
      | Some sb \<Rightarrow> iter_items_in_range d keyStart keyEnd (root_block sb) consumer acc fs)"

text \<open>The expected size that \<open>regular_block_list\<close> and \<open>directory_list\<close> take from the
  Stat item: \<open>-1\<close> when there is none; the file type is asserted.\<close>

definition expected_size :: "FileType \<Rightarrow> Item option \<Rightarrow> error + int" where
  "expected_size ft item =
     (case item of
        None \<Rightarrow> Inr (- 1)
      | Some it \<Rightarrow>
          (case stat it of
             Inl e \<Rightarrow> Inl e
           | Inr st \<Rightarrow> if filetype st \<noteq> ft then Inl AssertionError else Inr (size_s st)))"

text \<open>What \<open>regular_block_list\<close> yields: a block number (0 marks a sparse block) or
  bytes.\<close>

datatype block = Ptr int | Data bytes

text \<open>The body of the loop of \<open>regular_block_list\<close> for one item, with the running
  size and the loop variables of the consumer.\<close>

definition regular_block_list_item ::
  "Item \<Rightarrow> (block \<Rightarrow> 'a \<Rightarrow> ReiserFs \<Rightarrow> 'a ctl result \<times> ReiserFs) \<Rightarrow>
   int \<times> 'a \<Rightarrow> ReiserFs \<Rightarrow> (int \<times> 'a) ctl result \<times> ReiserFs" where
  "regular_block_list_item item consumer sa fs =
     (case sa of (sz, acc) \<Rightarrow>
      if offset_k (key item) < sz then (Raise AssertionError, fs)
      else
        then_ctl
          (if offset_k (key item) > sz then
             (let fs1 = fs\<lparr>incomplete := True\<rparr>;
                  missing = offset_k (key item) - sz in
              if block_size fs1 = 0 then (Raise ZeroDivisionError, fs1)
              else
                then_ctl
                  (for_each (replicate (nat (missing div block_size fs1)) (Ptr 0)) consumer acc fs1)
                  (Pair sz)
                  (\<lambda>acc fs2.
                     map_res (map_ctl (Pair (sz + missing)))
                       (if missing mod block_size fs2 \<noteq> 0
                        then consumer (Data (replicate (nat (missing mod block_size fs2)) 0)) acc fs2
                        else (Return (Continue acc), fs2))))
           else (Return (Continue (sz, acc)), fs))
          id
          (\<lambda>sa fs3. case sa of (sz, acc) \<Rightarrow>
             if type (key item) = INDIRECT then
               (case indirect_blocks item of
                  Inl e \<Rightarrow> (Raise e, fs3)
                | Inr bl \<Rightarrow>
                    map_res
                      (map_ctl (Pair (sz + int (length (body item)) div 4 * block_size fs3)))
                      (for_each (map Ptr bl) consumer acc fs3))
             else if type (key item) = DIRECT then
               map_res (map_ctl (Pair (sz + int (length (body item)))))
                 (consumer (Data (Item.body item)) acc fs3)
             else (Return (Continue (sz, acc)), fs3)))"

definition regular_block_list ::
  "nat \<Rightarrow> nat \<Rightarrow> Key \<Rightarrow> (block \<Rightarrow> 'a \<Rightarrow> ReiserFs \<Rightarrow> 'a ctl result \<times> ReiserFs) \<Rightarrow>
   'a \<Rightarrow> ReiserFs \<Rightarrow> 'a ctl result \<times> ReiserFs" where
  "regular_block_list fuel d k consumer acc fs =
     (if type k \<noteq> STAT then (Raise AssertionError, fs)
      else
        bnd (find_item fuel k fs)
          (\<lambda>item fs.
             bnd (lift (expected_size REGULAR item), fs)
               (\<lambda>expectedSize fs.
                  bnd (iter_items_root d (mkKey (dirid k) (objid k) 1 STAT 1)
                         (mkKey (dirid k) (objid k + 1) 0 STAT 1)
                         (\<lambda>item. regular_block_list_item item consumer) (1, acc) fs)
                    (\<lambda>c fs. case c of
                       Continue (sz, acc') \<Rightarrow>
                         (Return (Continue acc'),
                          if sz < expectedSize then fs\<lparr>incomplete := True\<rparr> else fs)
                     | Break (sz, acc') \<Rightarrow> (Return (Break acc'), fs)))))"

definition directory_list ::
  "nat \<Rightarrow> nat \<Rightarrow> Key \<Rightarrow> (DirectoryEntry \<Rightarrow> 'a \<Rightarrow> ReiserFs \<Rightarrow> 'a ctl result \<times> ReiserFs) \<Rightarrow>
   'a \<Rightarrow> ReiserFs \<Rightarrow> 'a ctl result \<times> ReiserFs" where
  "directory_list fuel d k consumer acc fs =
     (if type k \<noteq> STAT then (Raise AssertionError, fs)
      else
        bnd (find_item fuel k fs)
          (\<lambda>item fs.
             bnd (lift (expected_size DIRECTORY' item), fs)
               (\<lambda>expectedSize fs.
                  bnd (iter_items_root d (mkKey (dirid k) (objid k) 1 DIRECTORY 1)
                         (mkKey (dirid k) (objid k + 1) 0 STAT 1)
                         (\<lambda>item sa fs. case sa of (sz, acc) \<Rightarrow>
                            (case Item_directory_list item of
                               Inl e \<Rightarrow> (Raise e, fs)
                             | Inr es \<Rightarrow>
                                 map_res (map_ctl (Pair (sz + int (length (body item)))))
                                   (for_each es consumer acc fs)))
                         (0, acc) fs)
                    (\<lambda>c fs. case c of
                       Continue (sz, acc') \<Rightarrow>
                         (Return (Continue acc'),
                          if sz \<noteq> expectedSize then fs\<lparr>incomplete := True\<rparr> else fs)
                     | Break (sz, acc') \<Rightarrow> (Return (Break acc'), fs)))))"

definition file_indirect_blocks ::
  "nat \<Rightarrow> Key \<Rightarrow> (int \<Rightarrow> 'a \<Rightarrow> ReiserFs \<Rightarrow> 'a ctl result \<times> ReiserFs) \<Rightarrow>
   'a \<Rightarrow> ReiserFs \<Rightarrow> 'a ctl result \<times> ReiserFs" where
  "file_indirect_blocks d k consumer acc fs =
     (if type k \<noteq> STAT then (Raise AssertionError, fs)
      else
        iter_items_root d (mkKey (dirid k) (objid k) 1 INDIRECT 1)
          (mkKey (dirid k) (objid k + 1) 0 STAT 1)
          (\<lambda>item acc fs.
             if type (key item) \<noteq> INDIRECT then (Return (Continue acc), fs)
             else (case indirect_blocks item of
                     Inl e \<Rightarrow> (Raise e, fs)
                   | Inr bl \<Rightarrow> for_each bl consumer acc fs))
          acc fs)"

text \<open>\<open>list(generator)\<close>: the body that appends.\<close>

definition collect :: "'x \<Rightarrow> 'x list \<Rightarrow> 's \<Rightarrow> 'x list ctl result \<times> 's" where
  "collect x acc s = (Return (Continue (acc @ [x])), s)"

definition ctl_value :: "'a ctl \<Rightarrow> 'a" where
  "ctl_value c = (case c of Continue a \<Rightarrow> a | Break a \<Rightarrow> a)"

section \<open>Text\<close>

text \<open>\<open>str(n)\<close> for an integer.\<close>

fun digits :: "nat \<Rightarrow> string" where
  "digits n = (if n < 10 then [char_of (48 + n)] else digits (n div 10) @ [char_of (48 + n mod 10)])"

declare digits.simps [simp del]

definition str_int :: "int \<Rightarrow> string" where
  "str_int i = (if i < 0 then CHR ''-'' # digits (nat (- i)) else digits (nat i))"

text \<open>\<open>print(a, b, c)\<close>: the arguments separated by one space.\<close>

definition print3 :: "string \<Rightarrow> string \<Rightarrow> string \<Rightarrow> out" where
  "print3 a b c = Line (a @ '' '' @ b @ '' '' @ c)"

text \<open>\<open>str.encode()\<close> of ASCII text, and the order of \<open>str\<close> (by code point, which is
  the order of the UTF-8 bytes).\<close>

definition encode :: "string \<Rightarrow> bytes" where
  "encode s = map (\<lambda>c. of_nat (of_char c)) s"

fun str_less :: "string \<Rightarrow> string \<Rightarrow> bool" where
  "str_less [] [] = False"
| "str_less [] (y # ys) = True"
| "str_less (x # xs) [] = False"
| "str_less (x # xs) (y # ys) =
     ((of_char x :: nat) < of_char y \<or> (x = y \<and> str_less xs ys))"

text \<open>\<open>bytes.split(sep)\<close> for a separator of one byte.\<close>

fun split_on :: "'a \<Rightarrow> 'a list \<Rightarrow> 'a list list" where
  "split_on c [] = [[]]"
| "split_on c (x # xs) =
     (case split_on c xs of
        [] \<Rightarrow> [[]]
      | p # ps \<Rightarrow> if x = c then [] # p # ps else (x # p) # ps)"

text \<open>
  Functions of the Python library that the program calls on its command line arguments
  and on names, taken as parameters: \<open>bytes.decode()\<close> (\<open>None\<close> when it raises
  \<open>UnicodeDecodeError\<close>), \<open>bytes.decode(errors="replace")\<close> and \<open>int(b)\<close> for bytes
  (\<open>None\<close> when it raises \<open>ValueError\<close>).
\<close>

record pylib =
  decode :: "bytes \<Rightarrow> string option"
  decode_replace :: "bytes \<Rightarrow> string"
  int_of_bytes :: "bytes \<Rightarrow> int option"

text \<open>\<open>print(f"... {name.decode()} ...", file=sys.stderr)\<close>.\<close>

definition eprint_name :: "pylib \<Rightarrow> string \<Rightarrow> bytes \<Rightarrow> string \<Rightarrow> ReiserFs \<Rightarrow> unit result \<times> ReiserFs" where
  "eprint_name L pre nm post fs =
     (case decode L nm of
        None \<Rightarrow> (Raise UnicodeDecodeError, fs)
      | Some s \<Rightarrow> (Return (), fs\<lparr>stderr := stderr fs @ [pre @ s @ post]\<rparr>))"

section \<open>Printing a range list\<close>

fun print_ranges :: "int \<Rightarrow> int \<Rightarrow> int \<Rightarrow> Range list \<Rightarrow> out list" where
  "print_ranges ps mult end' [] = []"
| "print_ranges ps mult end' (item # its) =
     (if end' \<noteq> start item
      then [print3 (str_int (ps + end' * mult)) (str_int ((start item - end') * mult)) ''-'']
      else []) @
     [print3 (str_int (ps + start item * mult)) (str_int (size' item * mult)) ''+''] @
     print_ranges ps mult (start item + size' item) its"

definition print_rangelist :: "RangeList \<Rightarrow> int \<Rightarrow> ReiserFs \<Rightarrow> ReiserFs" where
  "print_rangelist rangelist mult fs =
     fs\<lparr>stdout := stdout fs @
          [print3 ''0'' ''*'' ''1'', print3 ''0'' (str_int (partition_start fs)) ''-''] @
          print_ranges (partition_start fs) mult 0 (items rangelist)\<rparr>"

section \<open>Names and paths\<close>

definition stat_key :: "int \<Rightarrow> int \<Rightarrow> Key" where
  "stat_key d ob = mkKey d ob 0 STAT 2"

definition get_name :: "nat \<Rightarrow> nat \<Rightarrow> Key \<Rightarrow> Key \<Rightarrow> ReiserFs \<Rightarrow> bytes option result \<times> ReiserFs" where
  "get_name fuel d k parent fs =
     (if objid k = 2 then (Return (Some []), fs)
      else
        map_res ctl_value
          (directory_list fuel d parent
             (\<lambda>entry acc fs.
                if objid_e entry = objid k then (Return (Break (Some (name entry))), fs)
                else (Return (Continue acc), fs))
             None fs))"

text \<open>
  The loop of \<open>get_full_name\<close> over \<open>islice(directory_list(parent), 2)\<close>: the loop
  variables are the number of entries seen and the entry \<open>..\<close> when it was found;
  after two entries the generator is not resumed.
\<close>

definition dotdot_of_first_two ::
  "DirectoryEntry \<Rightarrow> nat \<times> DirectoryEntry option \<Rightarrow> ReiserFs \<Rightarrow>
   (nat \<times> DirectoryEntry option) ctl result \<times> ReiserFs" where
  "dotdot_of_first_two entry acc fs =
     (if name entry \<noteq> encode ''..'' then
        (if fst acc + 1 < 2 then (Return (Continue (fst acc + 1, None)), fs)
         else (Return (Break (fst acc + 1, None)), fs))
      else (Return (Break (fst acc + 1, Some entry)), fs))"

fun get_full_name_loop ::
  "nat \<Rightarrow> nat \<Rightarrow> nat \<Rightarrow> Key \<Rightarrow> Key \<Rightarrow> bytes list \<Rightarrow> ReiserFs \<Rightarrow> bytes list result \<times> ReiserFs" where
  "get_full_name_loop 0 fuel d k parent parts fs = (Timeout, fs)"
| "get_full_name_loop (Suc n) fuel d k parent parts fs =
     bnd (get_name fuel d k parent fs)
       (\<lambda>part fs.
          (let part' = (case part of
                          None \<Rightarrow> encode (str_int (dirid k) @ ''_'' @ str_int (objid k))
                        | Some p \<Rightarrow> p);
               parts' = parts @ [part']
           in if objid k = 2 then (Return parts', fs)
              else
                bnd (directory_list fuel d parent dotdot_of_first_two (0, None) fs)
                  (\<lambda>c fs.
                     case snd (ctl_value c) of
                       None \<Rightarrow> (Return parts', fs)
                     | Some entry \<Rightarrow>
                         get_full_name_loop n fuel d parent
                           (stat_key (dirid_e entry) (objid_e entry)) parts' fs)))"

text \<open>\<open>b"/".join(parts)\<close>.\<close>

fun join :: "'a list \<Rightarrow> 'a list list \<Rightarrow> 'a list" where
  "join sep [] = []"
| "join sep [p] = p"
| "join sep (p # q # ps) = p @ sep @ join sep (q # ps)"

definition get_full_name :: "nat \<Rightarrow> nat \<Rightarrow> Key \<Rightarrow> Key \<Rightarrow> ReiserFs \<Rightarrow> bytes result \<times> ReiserFs" where
  "get_full_name fuel d k parent fs =
     map_res (\<lambda>parts. join (encode ''/'') (rev parts))
       (get_full_name_loop fuel fuel d k parent [] fs)"

text \<open>The loop of \<open>path_to_key\<close> over the parts of the path; \<open>None\<close> is returned as
  soon as a part is not found in its directory.\<close>

fun path_to_key_loop ::
  "nat \<Rightarrow> nat \<Rightarrow> bytes list \<Rightarrow> Key \<Rightarrow> ReiserFs \<Rightarrow> Key option result \<times> ReiserFs" where
  "path_to_key_loop fuel d [] dirKey fs = (Return (Some dirKey), fs)"
| "path_to_key_loop fuel d (part # parts) dirKey fs =
     (if part = [] then path_to_key_loop fuel d parts dirKey fs
      else
        bnd (directory_list fuel d dirKey
               (\<lambda>entry acc fs.
                  if part = name entry
                  then (Return (Break (Some (stat_key (dirid_e entry) (objid_e entry)))), fs)
                  else (Return (Continue acc), fs))
               None fs)
          (\<lambda>c fs. case c of
             Break (Some dirKey') \<Rightarrow> path_to_key_loop fuel d parts dirKey' fs
           | _ \<Rightarrow> (Return None, fs)))"

definition path_to_key :: "pylib \<Rightarrow> nat \<Rightarrow> nat \<Rightarrow> bytes \<Rightarrow> ReiserFs \<Rightarrow> Key option result \<times> ReiserFs" where
  "path_to_key L fuel d nm fs =
     (let parts = split_on (0x2F :: byte) nm in
      if hd parts \<noteq> [] then
        (let id_parts = split_on (0x5F :: byte) (hd parts) in
         if length id_parts \<noteq> 2 then (Raise AssertionError, fs)
         else case int_of_bytes L (id_parts ! 0) of
                None \<Rightarrow> (Raise ValueError, fs)
              | Some a \<Rightarrow>
                  (case int_of_bytes L (id_parts ! 1) of
                     None \<Rightarrow> (Raise ValueError, fs)
                   | Some b \<Rightarrow> path_to_key_loop fuel d (tl parts) (stat_key a b) fs))
      else path_to_key_loop fuel d (tl parts) (stat_key 1 2) fs)"

section \<open>The tree walks\<close>

text \<open>
  \<open>heapq\<close> keeps a binary heap inside a list. The program only pushes and pops, so all
  that it sees of the heap is the order in which the items come out; the heap is
  modelled by the list of its items in ascending order of the tuples
  \<open>(block, level)\<close>, and \<open>heappop\<close> takes the head.
\<close>

definition tuple_le :: "int \<times> int \<Rightarrow> int \<times> int \<Rightarrow> bool" where
  "tuple_le a b = (fst a < fst b \<or> (fst a = fst b \<and> snd a \<le> snd b))"

fun heappush :: "(int \<times> int) list \<Rightarrow> int \<times> int \<Rightarrow> (int \<times> int) list" where
  "heappush [] x = [x]"
| "heappush (y # ys) x = (if tuple_le x y then x # y # ys else y # heappush ys x)"

definition heapify :: "(int \<times> int) list \<Rightarrow> (int \<times> int) list" where
  "heapify xs = foldl heappush [] xs"

text \<open>The loop over the child pointers of an internal node: a pointer below the block
  just read waits for the next pass, the others join the heap of this pass.\<close>

fun push_children ::
  "int \<Rightarrow> int \<Rightarrow> int list \<Rightarrow> (int \<times> int) list \<times> (int \<times> int) list \<Rightarrow>
   (int \<times> int) list \<times> (int \<times> int) list" where
  "push_children block lvl [] hn = hn"
| "push_children block lvl (ptr_block # ps) hn =
     (if ptr_block < block
      then push_children block lvl ps (fst hn, snd hn @ [(ptr_block, lvl)])
      else push_children block lvl ps (heappush (fst hn) (ptr_block, lvl), snd hn))"

definition log_pop :: "int \<Rightarrow> ReiserFs \<Rightarrow> ReiserFs" where
  "log_pop block fs =
     fs\<lparr>pop_log := (case pop_log fs of [] \<Rightarrow> [[block]]
                     | _ \<Rightarrow> butlast (pop_log fs) @ [last (pop_log fs) @ [block]])\<rparr>"

definition log_pass :: "ReiserFs \<Rightarrow> ReiserFs" where
  "log_pass fs = fs\<lparr>pop_log := pop_log fs @ [[]]\<rparr>"

text \<open>The sectors of the data blocks of a leaf that \<open>_findTree\<close> collects: a block
  number 0 is skipped.\<close>

definition leaf_sectors :: "int \<Rightarrow> int list \<Rightarrow> int list" where
  "leaf_sectors spb item_blocks =
     concat (map (\<lambda>item_block. if item_block = 0 then []
                               else map (\<lambda>off. item_block * spb + off) (py_range 0 spb 1))
               item_blocks)"

record tree_vars =
  heap :: "(int \<times> int) list"
  next_pass :: "(int \<times> int) list"
  incomplete_count :: int
  partial :: int
  found :: int

text \<open>The inner \<open>while heap\<close> loop of \<open>_findTree\<close>, for at most \<open>n\<close> blocks.\<close>

fun findTree_pass ::
  "nat \<Rightarrow> int \<Rightarrow> bool \<Rightarrow> tree_vars \<Rightarrow> ReiserFs \<Rightarrow> tree_vars result \<times> ReiserFs" where
  "findTree_pass 0 level_limit partial_only v fs = (Timeout, fs)"
| "findTree_pass (Suc n) level_limit partial_only v fs =
     (case heap v of
        [] \<Rightarrow> (Return v, fs)
      | (block, lvl) # h \<Rightarrow>
          bnd (readNode block (Some partial_only) (log_pop block fs))
            (\<lambda>(complete, node) fs.
               if \<not> complete then
                 findTree_pass n level_limit partial_only
                   (v\<lparr>heap := h, incomplete_count := incomplete_count v + 1,
                      partial := (if node \<noteq> None then partial v + 1 else partial v)\<rparr>) fs
               else case node of
                      None \<Rightarrow> (Raise AttributeError, fs)
                    | Some nd \<Rightarrow>
                        if level nd \<le> level_limit then
                          findTree_pass n level_limit partial_only (v\<lparr>heap := h\<rparr>) fs
                        else if level nd > 1 then
                          (case ptr_blocks nd of
                             Inl e \<Rightarrow> (Raise e, fs)
                           | Inr ptrs \<Rightarrow>
                               (let hn = push_children block (level nd - 1) ptrs (h, next_pass v)
                                in findTree_pass n level_limit partial_only
                                     (v\<lparr>heap := fst hn, next_pass := snd hn,
                                        found := found v + int (length ptrs)\<rparr>) fs))
                        else if level nd = 1 then
                          (case indirect_item_blocks nd of
                             Inl e \<Rightarrow> (Raise e, fs)
                           | Inr item_blocks \<Rightarrow>
                               findTree_pass n level_limit partial_only (v\<lparr>heap := h\<rparr>)
                                 (fs\<lparr>sectors := sectors fs @
                                       leaf_sectors (sectors_per_block fs) item_blocks\<rparr>))
                        else findTree_pass n level_limit partial_only (v\<lparr>heap := h\<rparr>) fs))"

text \<open>The outer \<open>while next_pass\<close> loop, for at most \<open>n\<close> passes of at most \<open>fuel\<close>
  blocks each.\<close>

fun findTree_loop ::
  "nat \<Rightarrow> nat \<Rightarrow> int \<Rightarrow> bool \<Rightarrow> tree_vars \<Rightarrow> ReiserFs \<Rightarrow> tree_vars result \<times> ReiserFs" where
  "findTree_loop 0 fuel level_limit partial_only v fs = (Timeout, fs)"
| "findTree_loop (Suc n) fuel level_limit partial_only v fs =
     (if next_pass v = [] then (Return v, fs)
      else
        bnd (findTree_pass fuel level_limit partial_only
               (v\<lparr>heap := heapify (next_pass v), next_pass := []\<rparr>) (log_pass fs))
          (\<lambda>v fs. findTree_loop n fuel level_limit partial_only v fs))"

definition findTree' :: "nat \<Rightarrow> int \<Rightarrow> bool \<Rightarrow> ReiserFs \<Rightarrow> unit result \<times> ReiserFs" where
  "findTree' fuel level_limit partial_only fs =
     (case superblock fs of
        None \<Rightarrow> (Raise AttributeError, fs)
      | Some sb \<Rightarrow>
          bnd (findTree_loop fuel fuel level_limit partial_only
                 \<lparr>heap = [], next_pass = [(root_block sb, - 1)], incomplete_count = 0,
                  partial = 0, found = 1\<rparr> fs)
            (\<lambda>v fs. (Return (),
               fs\<lparr>stderr := stderr fs @
                    [''found: '' @ str_int (found v),
                     ''incomplete: '' @ str_int (incomplete_count v),
                     ''partial: '' @ str_int (partial v)]\<rparr>)))"

text \<open>One \<open>rangelist.add(x, n)\<close> for each element of a list, on a new \<open>RangeList\<close>.\<close>

definition ranges_of :: "int list \<Rightarrow> int \<Rightarrow> error + RangeList" where
  "ranges_of xs n = add_all RangeList_init (map (\<lambda>x. (x, n)) xs)"

definition findTree :: "nat \<Rightarrow> int \<Rightarrow> bool \<Rightarrow> ReiserFs \<Rightarrow> unit result \<times> ReiserFs" where
  "findTree fuel level_limit partial_only fs0 =
     bnd (init fs0)
       (\<lambda>ok fs.
          bnd (if ok then findTree' fuel level_limit partial_only fs else (Return (), fs))
            (\<lambda>_ fs.
               (let fs' = fs\<lparr>sectors := sort (sectors fs)\<rparr> in
                case ranges_of (sectors fs') 1 of
                  Inl e \<Rightarrow> (Raise e, fs')
                | Inr rangelist \<Rightarrow> (Return (), print_rangelist rangelist 512 fs'))))"

text \<open>\<open>iter_leafs\<close>, a generator: the same two loops, yielding the leaves.\<close>

fun iter_leafs_pass ::
  "nat \<Rightarrow> (Node \<Rightarrow> 'a \<Rightarrow> ReiserFs \<Rightarrow> 'a ctl result \<times> ReiserFs) \<Rightarrow>
   (int \<times> int) list \<times> (int \<times> int) list \<Rightarrow> 'a \<Rightarrow> ReiserFs \<Rightarrow>
   ((int \<times> int) list \<times> 'a) ctl result \<times> ReiserFs" where
  "iter_leafs_pass 0 consumer hn acc fs = (Timeout, fs)"
| "iter_leafs_pass (Suc n) consumer hn acc fs =
     (case fst hn of
        [] \<Rightarrow> (Return (Continue (snd hn, acc)), fs)
      | (block, lvl) # h \<Rightarrow>
          bnd (readNode block None (log_pop block fs))
            (\<lambda>(complete, node) fs.
               if \<not> complete then iter_leafs_pass n consumer (h, snd hn) acc fs
               else case node of
                      None \<Rightarrow> (Raise AttributeError, fs)
                    | Some nd \<Rightarrow>
                        if level nd > 1 then
                          (case ptr_blocks nd of
                             Inl e \<Rightarrow> (Raise e, fs)
                           | Inr ptrs \<Rightarrow>
                               iter_leafs_pass n consumer
                                 (push_children block (level nd - 1) ptrs (h, snd hn)) acc fs)
                        else if level nd = 1 then
                          then_ctl (consumer nd acc fs) (Pair (snd hn))
                            (\<lambda>acc fs. iter_leafs_pass n consumer (h, snd hn) acc fs)
                        else iter_leafs_pass n consumer (h, snd hn) acc fs))"

fun iter_leafs_loop ::
  "nat \<Rightarrow> nat \<Rightarrow> (Node \<Rightarrow> 'a \<Rightarrow> ReiserFs \<Rightarrow> 'a ctl result \<times> ReiserFs) \<Rightarrow>
   (int \<times> int) list \<Rightarrow> 'a \<Rightarrow> ReiserFs \<Rightarrow> 'a ctl result \<times> ReiserFs" where
  "iter_leafs_loop 0 fuel consumer next_pass' acc fs = (Timeout, fs)"
| "iter_leafs_loop (Suc n) fuel consumer next_pass' acc fs =
     (if next_pass' = [] then (Return (Continue acc), fs)
      else
        then_ctl (iter_leafs_pass fuel consumer (heapify next_pass', []) acc (log_pass fs)) snd
          (\<lambda>na fs. iter_leafs_loop n fuel consumer (fst na) (snd na) fs))"

definition iter_leafs ::
  "nat \<Rightarrow> (Node \<Rightarrow> 'a \<Rightarrow> ReiserFs \<Rightarrow> 'a ctl result \<times> ReiserFs) \<Rightarrow>
   'a \<Rightarrow> ReiserFs \<Rightarrow> 'a ctl result \<times> ReiserFs" where
  "iter_leafs fuel consumer acc fs =
     (case superblock fs of
        None \<Rightarrow> (Raise AttributeError, fs)
      | Some sb \<Rightarrow> iter_leafs_loop fuel fuel consumer [(root_block sb, - 1)] acc fs)"

section \<open>The commands\<close>

definition eprint :: "string \<Rightarrow> ReiserFs \<Rightarrow> unit result \<times> ReiserFs" where
  "eprint s fs = (Return (), fs\<lparr>stderr := stderr fs @ [s]\<rparr>)"

definition print :: "string \<Rightarrow> ReiserFs \<Rightarrow> unit result \<times> ReiserFs" where
  "print s fs = (Return (), fs\<lparr>stdout := stdout fs @ [Line s]\<rparr>)"

text \<open>A stable sort by a given order (\<open>list.sort()\<close>).\<close>

fun insert_by :: "('a \<Rightarrow> 'a \<Rightarrow> bool) \<Rightarrow> 'a \<Rightarrow> 'a list \<Rightarrow> 'a list" where
  "insert_by le x [] = [x]"
| "insert_by le x (y # ys) = (if le x y then x # y # ys else y # insert_by le x ys)"

definition sort_by :: "('a \<Rightarrow> 'a \<Rightarrow> bool) \<Rightarrow> 'a list \<Rightarrow> 'a list" where
  "sort_by le xs = foldr (insert_by le) xs []"

subsection \<open>cat\<close>

text \<open>The body of the loop of \<open>cat\<close> over the blocks of the file; the loop variable is
  \<open>currentSize\<close>.\<close>

definition cat_block :: "int \<Rightarrow> block \<Rightarrow> int \<Rightarrow> ReiserFs \<Rightarrow> int ctl result \<times> ReiserFs" where
  "cat_block expectedSize blk currentSize fs =
     (case (case blk of
              Data b \<Rightarrow> Inr b
            | Ptr n \<Rightarrow> if n = 0 then Inr (replicate (nat (block_size fs)) 0)
                       else readBlock fs n) of
        Inl e \<Rightarrow> (Raise e, fs)
      | Inr toWrite0 \<Rightarrow>
          (let toWrite = (if currentSize + int (length toWrite0) > expectedSize
                          then py_slice toWrite0 0 (expectedSize - currentSize) else toWrite0)
           in (Return (Continue (currentSize + int (length toWrite))),
               fs\<lparr>stdout := stdout fs @ [Bytes toWrite]\<rparr>)))"

fun FileType_str :: "FileType \<Rightarrow> string" where
  "FileType_str SOCKET = ''FileType.SOCKET''"
| "FileType_str LINK = ''FileType.LINK''"
| "FileType_str REGULAR = ''FileType.REGULAR''"
| "FileType_str BLOCK = ''FileType.BLOCK''"
| "FileType_str DIRECTORY' = ''FileType.DIRECTORY''"
| "FileType_str CHARACTER = ''FileType.CHARACTER''"
| "FileType_str FIF0 = ''FileType.FIF0''"

definition cat :: "pylib \<Rightarrow> nat \<Rightarrow> nat \<Rightarrow> bytes \<Rightarrow> ReiserFs \<Rightarrow> unit result \<times> ReiserFs" where
  "cat L fuel d nm fs0 =
     bnd (init fs0)
       (\<lambda>ok fs.
          if \<not> ok then eprint ''Could not access superblock'' fs
          else
            bnd (path_to_key L fuel d nm fs)
              (\<lambda>k fs. case k of
                 None \<Rightarrow> eprint_name L ''Could not find '' nm [] fs
               | Some k \<Rightarrow>
                   bnd (find_item fuel k fs)
                     (\<lambda>item fs. case item of
                        None \<Rightarrow> eprint_name L ''Could not stat '' nm [] fs
                      | Some it \<Rightarrow>
                          (case stat it of
                             Inl e \<Rightarrow> (Raise e, fs)
                           | Inr st \<Rightarrow>
                               if filetype st \<noteq> REGULAR then
                                 eprint_name L [] nm
                                   ('' not a regular file: '' @ FileType_str (filetype st)) fs
                               else
                                 bnd (regular_block_list fuel d k (cat_block (size_s st)) 0
                                        (fs\<lparr>incomplete := False\<rparr>))
                                   (\<lambda>c fs. if size_s st \<noteq> ctl_value c
                                            then (Raise AssertionError, fs)
                                            else (Return (), fs))))))"

subsection \<open>folder\<close>

text \<open>The loop of \<open>findFolder\<close> over the paths: \<open>None\<close> when a path was not found and
  the command returns.\<close>

fun findFolder_names ::
  "pylib \<Rightarrow> nat \<Rightarrow> nat \<Rightarrow> bytes list \<Rightarrow> Key list \<times> int list \<Rightarrow> ReiserFs \<Rightarrow>
   (Key list \<times> int list) option result \<times> ReiserFs" where
  "findFolder_names L fuel d [] ke fs = (Return (Some ke), fs)"
| "findFolder_names L fuel d (nm0 # nms) ke fs =
     (let exclude = (nm0 \<noteq> [] \<and> hd nm0 = 0x2D);
          nm = (if exclude then tl nm0 else nm0)
      in bnd (path_to_key L fuel d nm fs)
           (\<lambda>k fs. case k of
              None \<Rightarrow> map_res (\<lambda>_. None) (eprint_name L ''Could not find '' nm [] fs)
            | Some k \<Rightarrow>
                if exclude then findFolder_names L fuel d nms (fst ke, snd ke @ [objid k]) fs
                else findFolder_names L fuel d nms (fst ke @ [k], snd ke) fs))"

text \<open>The \<open>while keysRemaining\<close> loop, for at most \<open>n\<close> keys. The set \<open>blocks\<close> is kept
  as the list of what was added to it.\<close>

fun findFolder_loop ::
  "nat \<Rightarrow> nat \<Rightarrow> nat \<Rightarrow> bool \<Rightarrow> int list \<Rightarrow> Key list \<Rightarrow> int list \<Rightarrow> ReiserFs \<Rightarrow>
   int list result \<times> ReiserFs" where
  "findFolder_loop 0 fuel d metadata_only excludeIds keysRemaining blocks fs = (Timeout, fs)"
| "findFolder_loop (Suc n) fuel d metadata_only excludeIds keysRemaining blocks fs =
     (if keysRemaining = [] then (Return blocks, fs)
      else
        bnd (find_item fuel (last keysRemaining) fs)
          (\<lambda>item fs. case item of
             None \<Rightarrow>
               findFolder_loop n fuel d metadata_only excludeIds (butlast keysRemaining) blocks fs
           | Some it \<Rightarrow>
               (case stat it of
                  Inl e \<Rightarrow> (Raise e, fs)
                | Inr st \<Rightarrow>
                    if filetype st = DIRECTORY' then
                      bnd (directory_list fuel d (last keysRemaining)
                             (\<lambda>entry acc fs.
                                if name entry = encode ''.'' \<or> name entry = encode ''..''
                                then (Return (Continue acc), fs)
                                else if objid_e entry \<in> set excludeIds
                                then (Return (Continue acc), fs)
                                else (Return (Continue
                                        (acc @ [stat_key (dirid_e entry) (objid_e entry)])), fs))
                             (butlast keysRemaining) fs)
                        (\<lambda>c fs. findFolder_loop n fuel d metadata_only excludeIds
                                   (ctl_value c) blocks fs)
                    else if filetype st = REGULAR then
                      bnd (file_indirect_blocks d (last keysRemaining) collect [] fs)
                        (\<lambda>c fs. findFolder_loop n fuel d metadata_only excludeIds
                                   (butlast keysRemaining)
                                   (if metadata_only then blocks else blocks @ ctl_value c) fs)
                    else
                      findFolder_loop n fuel d metadata_only excludeIds
                        (butlast keysRemaining) blocks fs)))"

text \<open>The order of \<open>Range\<close> objects (\<open>__lt__\<close> and \<open>__eq__\<close>).\<close>

definition Range_le :: "Range \<Rightarrow> Range \<Rightarrow> bool" where
  "Range_le a b = (start a < start b \<or> (start a = start b \<and> size' a \<le> size' b))"

text \<open>The end of \<open>findFolder\<close>: the ranges of the data blocks and of the touched
  sectors, merged and printed. \<open>fs.sectors\<close> is a set here.\<close>

definition findFolder_emit :: "int list \<Rightarrow> ReiserFs \<Rightarrow> unit result \<times> ReiserFs" where
  "findFolder_emit blocks fs =
     (case add_all RangeList_init
             (map (\<lambda>b. (b * sectors_per_block fs, sectors_per_block fs))
                (sort (remdups blocks))) of
        Inl e \<Rightarrow> (Raise e, fs)
      | Inr rl1 \<Rightarrow>
          (let fs' = fs\<lparr>sectors := sort (remdups (sectors fs))\<rparr> in
           case ranges_of (sectors fs') 1 of
             Inl e \<Rightarrow> (Raise e, fs')
           | Inr rl2 \<Rightarrow>
               (case add_all RangeList_init
                       (map (\<lambda>r. (start r, size' r))
                          (sort_by Range_le (items rl1 @ items rl2))) of
                  Inl e \<Rightarrow> (Raise e, fs')
                | Inr rl3 \<Rightarrow> (Return (), print_rangelist rl3 512 fs'))))"

definition findFolder ::
  "pylib \<Rightarrow> nat \<Rightarrow> nat \<Rightarrow> bytes list \<Rightarrow> bool \<Rightarrow> ReiserFs \<Rightarrow> unit result \<times> ReiserFs" where
  "findFolder L fuel d names metadata_only fs0 =
     bnd (init fs0)
       (\<lambda>ok fs.
          if \<not> ok then
            (case add RangeList_init 65536 512 of
               Inl e \<Rightarrow> (Raise e, fs)
             | Inr rangelist \<Rightarrow> (Return (), print_rangelist rangelist 1 fs))
          else
            bnd (findFolder_names L fuel d names ([], []) fs)
              (\<lambda>ke fs. case ke of
                 None \<Rightarrow> (Return (), fs)
               | Some (keysRemaining, excludeIds) \<Rightarrow>
                   bnd (findFolder_loop fuel fuel d metadata_only excludeIds keysRemaining []
                          (fs\<lparr>sectors := []\<rparr>))
                     findFolder_emit))"

subsection \<open>bitmap\<close>

text \<open>The blocks that \<open>markUsed\<close> adds for a bitmap block that describes the blocks
  from \<open>pos\<close> on.\<close>

definition used_blocks :: "int \<Rightarrow> bytes \<Rightarrow> int list" where
  "used_blocks pos bitmap =
     concat (map (\<lambda>i. map (\<lambda>n. pos + int i * 8 + int n)
                        (filter (\<lambda>n. bit (bitmap ! i) n) [0..<8]))
               [0..<length bitmap])"

definition markUsed :: "RangeList \<Rightarrow> int \<Rightarrow> bytes \<Rightarrow> error + RangeList" where
  "markUsed rangelist pos bitmap = add_all rangelist (map (\<lambda>x. (x, 1)) (used_blocks pos bitmap))"

fun findBitmap_loop :: "ReiserFs \<Rightarrow> int list \<Rightarrow> RangeList \<Rightarrow> error + RangeList" where
  "findBitmap_loop fs [] rangelist = Inr rangelist"
| "findBitmap_loop fs (pos # ps) rangelist =
     (case readBlock fs pos of
        Inl e \<Rightarrow> Inl e
      | Inr r \<Rightarrow>
          (case getitem (rescue_map fs) (pos * block_size fs) of
             Inl e \<Rightarrow> Inl e
           | Inr st \<Rightarrow>
               (case (if st \<noteq> FINISHED then add rangelist pos 1 else Inr rangelist) of
                  Inl e \<Rightarrow> Inl e
                | Inr rl \<Rightarrow>
                    (case markUsed rl pos r of
                       Inl e \<Rightarrow> Inl e
                     | Inr rl' \<Rightarrow> findBitmap_loop fs ps rl'))))"

definition findBitmap :: "bool \<Rightarrow> ReiserFs \<Rightarrow> unit result \<times> ReiserFs" where
  "findBitmap metadataOnly fs0 =
     bnd (init fs0)
       (\<lambda>ok fs.
          if \<not> ok then
            (case add RangeList_init 65536 512 of
               Inl e \<Rightarrow> (Raise e, fs)
             | Inr rangelist \<Rightarrow> (Return (), print_rangelist rangelist 1 fs))
          else if block_size fs = 0 then (Raise ZeroDivisionError, fs)
          else case superblock fs of
                 None \<Rightarrow> (Raise AttributeError, fs)
               | Some sb \<Rightarrow>
                   if metadataOnly then
                     (case add_all RangeList_init
                             ([(65536 div block_size fs, 1), (65536 div block_size fs + 1, 1)] @
                              map (\<lambda>pos. (pos, 1))
                                (py_range (block_size fs * 8) (block_count sb)
                                   (block_size fs * 8))) of
                        Inl e \<Rightarrow> (Raise e, fs)
                      | Inr rangelist \<Rightarrow>
                          (Return (), print_rangelist rangelist (block_size fs) fs))
                   else
                     (case readBlock fs (65536 div block_size fs + 1) of
                        Inl e \<Rightarrow> (Raise e, fs)
                      | Inr r \<Rightarrow>
                          (case getitem (rescue_map fs) (65536 + block_size fs) of
                             Inl e \<Rightarrow> (Raise e, fs)
                           | Inr st \<Rightarrow>
                               (case (if st \<noteq> FINISHED
                                      then add RangeList_init (65536 div block_size fs + 1) 1
                                      else Inr RangeList_init) of
                                  Inl e \<Rightarrow> (Raise e, fs)
                                | Inr rl0 \<Rightarrow>
                                    (case markUsed rl0 0 r of
                                       Inl e \<Rightarrow> (Raise e, fs)
                                     | Inr rl1 \<Rightarrow>
                                         (case findBitmap_loop fs
                                                 (py_range (block_size fs * 8) (block_count sb)
                                                    (block_size fs * 8)) rl1 of
                                            Inl e \<Rightarrow> (Raise e, fs)
                                          | Inr rangelist \<Rightarrow>
                                              (Return (),
                                               print_rangelist rangelist (block_size fs) fs)))))))"

subsection \<open>ls\<close>

text \<open>\<open>f"{name: <2}"\<close>: the text padded with spaces to two characters.\<close>

definition ljust2 :: "string \<Rightarrow> string" where
  "ljust2 s = s @ replicate (2 - length s) CHR '' ''"

text \<open>The entries that \<open>ls_\<close> (here \<open>ls'\<close>) sorts are tuples \<open>(name,)\<close> or \<open>(name, key)\<close>.\<close>

definition entry_le :: "string \<times> Key option \<Rightarrow> string \<times> Key option \<Rightarrow> bool" where
  "entry_le a b =
     (if fst a \<noteq> fst b then str_less (fst a) (fst b)
      else case (snd a, snd b) of
             (None, _) \<Rightarrow> True
           | (Some k1, None) \<Rightarrow> False
           | (Some k1, Some k2) \<Rightarrow> key_le k1 k2)"

text \<open>The loop of \<open>ls_\<close> over the blocks of a regular file: false as soon as a block is
  not complete.\<close>

fun data_blocks_complete :: "ReiserFs \<Rightarrow> block list \<Rightarrow> error + bool" where
  "data_blocks_complete fs [] = Inr True"
| "data_blocks_complete fs (Data b # bs) = data_blocks_complete fs bs"
| "data_blocks_complete fs (Ptr n # bs) =
     (if n = 0 then data_blocks_complete fs bs
      else case isBlockComplete fs n of
             Inl e \<Rightarrow> Inl e
           | Inr ok \<Rightarrow> if \<not> ok then Inr False else data_blocks_complete fs bs)"

text \<open>The first loop of \<open>ls_\<close>, over the directory entries.\<close>

fun ls_entries ::
  "pylib \<Rightarrow> nat \<Rightarrow> nat \<Rightarrow> string \<Rightarrow> bool \<Rightarrow> bool \<Rightarrow> DirectoryEntry list \<Rightarrow>
   (string \<times> Key option) list \<Rightarrow> ReiserFs \<Rightarrow> (string \<times> Key option) list result \<times> ReiserFs" where
  "ls_entries L fuel d dirname recurse incompl [] entries fs = (Return entries, fs)"
| "ls_entries L fuel d dirname recurse incompl (entry # es) entries fs =
     (let nm = decode_replace L (name entry) in
      if name entry = encode ''.'' then
        bnd (print (if recurse
                    then dirname @ (if incompl then '' (incomplete entry list)'' else [])
                    else ljust2 nm @ [CHR 0x09] @ str_int (dirid_e entry) @ ''_'' @
                         str_int (objid_e entry) @ [CHR 0x09] @ dirname) fs)
          (\<lambda>_ fs. ls_entries L fuel d dirname recurse incompl es entries fs)
      else if name entry = encode ''..'' then
        (if recurse then ls_entries L fuel d dirname recurse incompl es entries fs
         else
           bnd (print (ljust2 nm @ [CHR 0x09] @ str_int (dirid_e entry) @ ''_'' @
                       str_int (objid_e entry)) fs)
             (\<lambda>_ fs. ls_entries L fuel d dirname recurse incompl es entries fs))
      else
        bnd (find_item fuel (stat_key (dirid_e entry) (objid_e entry)) fs)
          (\<lambda>item fs. case item of
             None \<Rightarrow>
               ls_entries L fuel d dirname recurse incompl es
                 (entries @ [(nm @ '' (incomplete stat info)'', None)]) fs
           | Some it \<Rightarrow>
               (case stat it of
                  Inl e \<Rightarrow> (Raise e, fs)
                | Inr st \<Rightarrow>
                    if filetype st = DIRECTORY' then
                      ls_entries L fuel d dirname recurse incompl es
                        (entries @ [(nm @ ''/'',
                                     Some (stat_key (dirid_e entry) (objid_e entry)))]) fs
                    else if filetype st = REGULAR then
                      bnd (regular_block_list fuel d
                             (stat_key (dirid_e entry) (objid_e entry)) collect []
                             (fs\<lparr>incomplete := False\<rparr>))
                        (\<lambda>c fs.
                           if incomplete fs then
                             ls_entries L fuel d dirname recurse incompl es
                               (entries @ [(nm @ '' (incomplete block list)'', None)]) fs
                           else
                             (case data_blocks_complete fs (ctl_value c) of
                                Inl e \<Rightarrow> (Raise e, fs)
                              | Inr ok \<Rightarrow>
                                  ls_entries L fuel d dirname recurse incompl es
                                    (entries @
                                     [(nm @ (if ok then [] else '' (incomplete data blocks)''),
                                       None)]) fs))
                    else
                      ls_entries L fuel d dirname recurse incompl es
                        (entries @ [(nm, None)]) fs)))"

text \<open>\<open>ls_\<close> calls itself for the directories it lists: beyond \<open>r\<close> nested calls the
  interpreter raises \<open>RecursionError\<close>.\<close>

fun ls' ::
  "pylib \<Rightarrow> nat \<Rightarrow> nat \<Rightarrow> nat \<Rightarrow> Key \<Rightarrow> string \<Rightarrow> bool \<Rightarrow> ReiserFs \<Rightarrow> unit result \<times> ReiserFs" where
  "ls' L 0 fuel d dirKey dirname recurse fs = (Raise RecursionError, fs)"
| "ls' L (Suc r) fuel d dirKey dirname recurse fs0 =
     bnd (directory_list fuel d dirKey collect [] (fs0\<lparr>incomplete := False\<rparr>))
       (\<lambda>c fs.
          (let incompl = incomplete fs in
           bnd (ls_entries L fuel d dirname recurse incompl (ctl_value c) [] fs)
             (\<lambda>entries fs.
                bnd (for_each (sort_by entry_le entries)
                       (\<lambda>entry u fs.
                          map_res Continue
                            (if \<not> recurse then print (fst entry) fs
                             else case snd entry of
                                    None \<Rightarrow> print (dirname @ fst entry) fs
                                  | Some k \<Rightarrow>
                                      ls' L r fuel d k (dirname @ fst entry) recurse fs))
                       () fs)
                  (\<lambda>_ fs. if incompl \<and> \<not> recurse then print ''(results incomplete)'' fs
                           else (Return (), fs)))))"

text \<open>The loop of \<open>ls\<close> over \<open>islice(directory_list(dirKey), 2)\<close>: the loop variables
  are the number of entries seen and \<open>dirname\<close>.\<close>

definition ls_dirname ::
  "nat \<Rightarrow> nat \<Rightarrow> Key \<Rightarrow> DirectoryEntry \<Rightarrow> nat \<times> bytes option \<Rightarrow> ReiserFs \<Rightarrow>
   (nat \<times> bytes option) ctl result \<times> ReiserFs" where
  "ls_dirname fuel d dirKey entry acc fs =
     bnd (if name entry \<noteq> encode ''..'' then (Return (snd acc), fs)
          else get_name fuel d dirKey (stat_key (dirid_e entry) (objid_e entry)) fs)
       (\<lambda>dirname fs.
          if fst acc + 1 < 2 then (Return (Continue (fst acc + 1, dirname)), fs)
          else (Return (Break (fst acc + 1, dirname)), fs))"

definition ls :: "pylib \<Rightarrow> nat \<Rightarrow> nat \<Rightarrow> bytes \<Rightarrow> bool \<Rightarrow> ReiserFs \<Rightarrow> unit result \<times> ReiserFs" where
  "ls L fuel d nm recurse fs0 =
     bnd (init fs0)
       (\<lambda>ok fs.
          if \<not> ok then eprint ''Could not access superblock'' fs
          else
            bnd (path_to_key L fuel d nm fs)
              (\<lambda>k fs. case k of
                 None \<Rightarrow> eprint_name L ''Could not find '' nm [] fs
               | Some dirKey \<Rightarrow>
                   bnd (find_item fuel dirKey fs)
                     (\<lambda>item fs. case item of
                        None \<Rightarrow> eprint_name L ''Could not stat '' nm [] fs
                      | Some it \<Rightarrow>
                          (case stat it of
                             Inl e \<Rightarrow> (Raise e, fs)
                           | Inr st \<Rightarrow>
                               if filetype st = REGULAR
                               then eprint_name L [] nm '' (normal file)'' fs
                               else if filetype st = LINK
                               then eprint_name L [] nm '' (symbolic link)'' fs
                               else if filetype st \<noteq> DIRECTORY'
                               then eprint_name L [] nm '' (special file)'' fs
                               else
                                 bnd (directory_list fuel d dirKey (ls_dirname fuel d dirKey)
                                        (0, None) fs)
                                   (\<lambda>c fs.
                                      ls' L d fuel d dirKey
                                        (decode_replace L
                                           (case snd (ctl_value c) of
                                              None \<Rightarrow>
                                                if recurse
                                                then encode (str_int (dirid dirKey) @ ''_'' @
                                                             str_int (objid dirKey))
                                                else encode ''(unknown)''
                                            | Some dn \<Rightarrow> dn) @ ''/'')
                                        recurse fs)))))"

subsection \<open>find\<close>

definition find :: "pylib \<Rightarrow> nat \<Rightarrow> nat \<Rightarrow> bytes \<Rightarrow> ReiserFs \<Rightarrow> unit result \<times> ReiserFs" where
  "find L fuel d nm fs0 =
     bnd (init fs0)
       (\<lambda>ok fs.
          if \<not> ok then eprint ''Could not access superblock'' fs
          else
            map_res (\<lambda>_. ())
              (iter_leafs fuel
                 (\<lambda>leaf u fs.
                    case items_n leaf of
                      Inl e \<Rightarrow> (Raise e, fs)
                    | Inr its \<Rightarrow>
                        for_each (filter (\<lambda>it. type (key it) = DIRECTORY) its)
                          (\<lambda>item u fs.
                             case Item_directory_list item of
                               Inl e \<Rightarrow> (Raise e, fs)
                             | Inr es \<Rightarrow>
                                 for_each (filter (\<lambda>entry. name entry = nm) es)
                                   (\<lambda>entry u fs.
                                      bnd (get_full_name fuel d
                                             (stat_key (dirid_e entry) (objid_e entry))
                                             (stat_key (dirid (key item)) (objid (key item))) fs)
                                        (\<lambda>full fs.
                                           map_res Continue (print (decode_replace L full) fs)))
                                   u fs)
                          u fs)
                 () fs))"

chapter \<open>Verification\<close>

section \<open>Auxiliary notions\<close>

definition packed_word :: "Key \<Rightarrow> int" where
  "packed_word k = (if version k = 1
                then offset_k k OR push_bit 32 (version1_type2id (type k))
                else offset_k k OR push_bit 60 (ItemType_value (type k)))"

definition gap_before :: "Range \<Rightarrow> Range \<Rightarrow> bool" where
  "gap_before a b = (start a + size' a < start b)"

definition rl_inv :: "Range list \<Rightarrow> bool" where
  "rl_inv rs = ((\<forall>r \<in> set rs. 0 \<le> size' r) \<and> sorted_wrt gap_before rs)"

section \<open>Little-endian fields and keys\<close>

lemma length_le_bytes [simp]: "length (le_bytes n v) = n"
  by (induction n arbitrary: v) auto

lemma le_uint_le_bytes: "0 \<le> v \<Longrightarrow> v < 256 ^ n \<Longrightarrow> le_uint (le_bytes n v) = v"
proof (induction n arbitrary: v)
  case 0 then show ?case by simp
next
  case (Suc n)
  have "v div 256 < 256 ^ n" using Suc.prems by (simp add: div_less_iff_less_mult mult.commute)
  moreover have "0 \<le> v div 256" using Suc.prems by simp
  ultimately have "le_uint (le_bytes n (v div 256)) = v div 256" by (rule Suc.IH[rotated])
  moreover have "uint (word_of_int v :: byte) = v mod 256"
    by (simp add: uint_word_of_int take_bit_eq_mod)
  ultimately show ?case by simp
qed

lemma take_bit_or_push:
  fixes a b :: int
  assumes "0 \<le> a" "a < 2 ^ n"
  shows "take_bit n (a OR push_bit n b) = a"
proof -
  have "take_bit n a = a" using assms by (simp add: take_bit_int_eq_self)
  then show ?thesis by (simp add: take_bit_or take_bit_push_bit)
qed

lemma drop_bit_or_push:
  fixes a b :: int
  assumes "0 \<le> a" "a < 2 ^ n"
  shows "drop_bit n (a OR push_bit n b) = b"
proof -
  have "drop_bit n a = 0" using assms by (simp add: drop_bit_eq_div)
  then show ?thesis by (simp add: drop_bit_or drop_bit_push_bit)
qed

lemma or_push_eq_add:
  fixes a b :: int
  assumes "0 \<le> a" "a < 2 ^ n"
  shows "a OR push_bit n b = a + push_bit n b"
proof -
  have "take_bit n a = a" using assms by (simp add: take_bit_int_eq_self)
  then have "a OR push_bit n b = take_bit n a OR push_bit n b" by simp
  also have "\<dots> = take_bit n a + push_bit n b"
    by (rule disjunctive_add_eq_or[symmetric]) (auto simp: bit_eq_iff bit_simps)
  finally show ?thesis using \<open>take_bit n a = a\<close> by simp
qed

lemma and_mask4: fixes a b :: int assumes "4 \<le> n"
  shows "(a OR push_bit n b) AND 0xF = a AND 0xF"
proof -
  have "(a OR push_bit n b) AND mask 4 = a AND mask 4"
    using assms by (auto simp: bit_eq_iff bit_simps)
  then show ?thesis by (simp add: mask_eq_exp_minus_1)
qed

lemma slices16:
  assumes "length b0 = 4" "length b1 = 4" "length b2 = 8"
  shows "slice (b0 @ b1 @ b2) 0 4 = b0" "slice (b0 @ b1 @ b2) 4 8 = b1" "slice (b0 @ b1 @ b2) 8 16 = b2"
  using assms by (simp_all add: slice_def)

lemma type2id_cases: "version1_type2id t \<in> {0, 0xFFFFFFFE, 0xFFFFFFFF, 500, 555}"
  by (cases t) simp_all

lemma id2type_type2id [simp]: "version1_id2type (version1_type2id t) = Some t"
  by (cases t) (simp_all add: version1_id2type_def)

lemma ItemType_of_value [simp]: "ItemType_of (ItemType_value t) = Some t"
  by (cases t) (simp_all add: ItemType_of_def)

lemma type2id_bounds: "0 \<le> version1_type2id t" "version1_type2id t < 2 ^ 32"
  by (cases t; simp)+

lemma value_bounds: "0 \<le> ItemType_value t" "ItemType_value t < 2 ^ 4"
  by (cases t; simp)+

lemma packed_word_bounds:
  assumes "valid_key k"
  shows "0 \<le> packed_word k" "packed_word k < 2 ^ 64"
proof -
  show "0 \<le> packed_word k"
    using assms type2id_bounds(1)[of "type k"] value_bounds(1)[of "type k"]
    by (auto simp: packed_word_def valid_key_def)
  show "packed_word k < 2 ^ 64"
  proof (cases "version k = 1")
    case True
    then have o: "0 \<le> offset_k k" "offset_k k < 2 ^ 32" using assms by (auto simp: valid_key_def)
    have "packed_word k = offset_k k + push_bit 32 (version1_type2id (type k))"
      using True or_push_eq_add[OF o] by (simp add: packed_word_def)
    moreover have "push_bit 32 (version1_type2id (type k)) \<le> push_bit 32 (2 ^ 32 - 1 :: int)"
      using type2id_bounds(2)[of "type k"] by (simp add: push_bit_eq_mult)
    ultimately show ?thesis using o by (simp add: push_bit_eq_mult)
  next
    case False
    then have o: "0 \<le> offset_k k" "offset_k k < 2 ^ 60" using assms by (auto simp: valid_key_def)
    have "packed_word k = offset_k k + push_bit 60 (ItemType_value (type k))"
      using False or_push_eq_add[OF o] by (simp add: packed_word_def)
    moreover have "push_bit 60 (ItemType_value (type k)) \<le> push_bit 60 (2 ^ 4 - 1 :: int)"
      using value_bounds(2)[of "type k"] by (simp add: push_bit_eq_mult)
    ultimately show ?thesis using o by (simp add: push_bit_eq_mult)
  qed
qed

lemma pack_valid:
  assumes "valid_key k"
  shows "pack k = Inr (le_bytes 4 (dirid k) @ le_bytes 4 (objid k) @ le_bytes 8 (packed_word k))"
  using assms packed_word_bounds[OF assms]
  by (simp add: pack_def pack_uint_def valid_key_def packed_word_def[symmetric] Let_def)

lemma unpack_packed:
  assumes "valid_key k"
  shows "unpack (le_bytes 4 (dirid k) @ le_bytes 4 (objid k) @ le_bytes 8 (packed_word k)) ver =
     (let v = (case ver of
                    None \<Rightarrow> (let assumed_type = packed_word k AND 0xF
                             in if assumed_type = 0 \<or> assumed_type = 15 then 1 else 2)
                  | Some v' \<Rightarrow> v')
      in if v = 1 then
              (case version1_id2type (drop_bit 32 (packed_word k)) of
                 None \<Rightarrow> Inl KeyError
               | Some t \<Rightarrow> Inr (mkKey (dirid k) (objid k) (packed_word k AND 0xFFFFFFFF) t 1))
            else
              (case ItemType_of (drop_bit 60 (packed_word k)) of
                 None \<Rightarrow> Inl ValueError
               | Some t \<Rightarrow> Inr (mkKey (dirid k) (objid k) (packed_word k AND 0x0FFFFFFFFFFFFFFF) t 2)))"
proof -
  have d: "le_uint (le_bytes 4 (dirid k)) = dirid k" "le_uint (le_bytes 4 (objid k)) = objid k"
    using assms by (auto intro!: le_uint_le_bytes simp: valid_key_def)
  have p: "le_uint (le_bytes 8 (packed_word k)) = packed_word k"
    using packed_word_bounds[OF assms] by (auto intro!: le_uint_le_bytes)
  show ?thesis
    unfolding unpack_def
    by (simp only: slices16 length_le_bytes length_append d p Let_def) simp
qed

lemma packed_word_fields:
  assumes "valid_key k"
  shows "version k = 1 \<Longrightarrow> drop_bit 32 (packed_word k) = version1_type2id (type k)"
    "version k = 1 \<Longrightarrow> packed_word k AND 0xFFFFFFFF = offset_k k"
    "version k \<noteq> 1 \<Longrightarrow> drop_bit 60 (packed_word k) = ItemType_value (type k)"
    "version k \<noteq> 1 \<Longrightarrow> packed_word k AND 0x0FFFFFFFFFFFFFFF = offset_k k"
    "packed_word k AND 0xF = offset_k k AND 0xF"
proof -
  have m32: "(0xFFFFFFFF :: int) = mask 32" and m60: "(0x0FFFFFFFFFFFFFFF :: int) = mask 60"
    by (simp_all add: mask_eq_exp_minus_1)
  {
    assume v: "version k = 1"
    then have o: "0 \<le> offset_k k" "offset_k k < 2 ^ 32" using assms by (auto simp: valid_key_def)
    have pw: "packed_word k = offset_k k OR push_bit 32 (version1_type2id (type k))"
      using v by (simp add: packed_word_def)
    show "drop_bit 32 (packed_word k) = version1_type2id (type k)"
      unfolding pw by (rule drop_bit_or_push[OF o])
    show "packed_word k AND 0xFFFFFFFF = offset_k k"
      unfolding pw m32 take_bit_eq_mask[symmetric] by (rule take_bit_or_push[OF o])
  }
  {
    assume v: "version k \<noteq> 1"
    then have o: "0 \<le> offset_k k" "offset_k k < 2 ^ 60" using assms by (auto simp: valid_key_def)
    have pw: "packed_word k = offset_k k OR push_bit 60 (ItemType_value (type k))"
      using v by (simp add: packed_word_def)
    show "drop_bit 60 (packed_word k) = ItemType_value (type k)"
      unfolding pw by (rule drop_bit_or_push[OF o])
    show "packed_word k AND 0x0FFFFFFFFFFFFFFF = offset_k k"
      unfolding pw m60 take_bit_eq_mask[symmetric] by (rule take_bit_or_push[OF o])
  }
  show "packed_word k AND 0xF = offset_k k AND 0xF"
    by (simp add: packed_word_def and_mask4)
qed

text \<open>
  Claim C5. Every valid key (unsigned 32-bit ids; version 1 with an offset below \<open>2^32\<close>
  and any of the five item types, or version 2 with an offset below \<open>2^60\<close>) packs into
  16 bytes, and unpacking these bytes with the version forced to the key's version gives
  the key back.
\<close>

theorem key_roundtrip:
  assumes "valid_key k"
  shows "\<exists>b. pack k = Inr b \<and> length b = 16 \<and> unpack b (Some (version k)) = Inr k"
proof -
  let ?b = "le_bytes 4 (dirid k) @ le_bytes 4 (objid k) @ le_bytes 8 (packed_word k)"
  have v: "version k = 1 \<or> version k = 2" using assms by (auto simp: valid_key_def)
  have "unpack ?b (Some (version k)) = Inr k"
    using v packed_word_fields[OF assms]
    by (auto simp: unpack_packed[OF assms] mkKey_def)
  then show ?thesis using pack_valid[OF assms] by simp
qed

theorem key_roundtrip_witness:
  "valid_key (mkKey 1 2 17 DIRECT 2) \<and>
   pack (mkKey 1 2 17 DIRECT 2) = Inr [1, 0, 0, 0, 2, 0, 0, 0, 17, 0, 0, 0, 0, 0, 0, 0x20] \<and>
   unpack [1, 0, 0, 0, 2, 0, 0, 0, 17, 0, 0, 0, 0, 0, 0, 0x20] (Some 2) = Inr (mkKey 1 2 17 DIRECT 2)"
proof -
  have v: "valid_key (mkKey 1 2 17 DIRECT 2)" by code_simp
  have p: "pack (mkKey 1 2 17 DIRECT 2) = Inr [1, 0, 0, 0, 2, 0, 0, 0, 17, 0, 0, 0, 0, 0, 0, 0x20]"
    by code_simp
  from key_roundtrip[OF v] p v show ?thesis by (auto simp: mkKey_def)
qed

text \<open>
  Claim C9. With the version inferred from the low four bits of the packed word, unpacking
  the packed bytes of a valid key returns the key exactly when the key is of version 1 and
  the low four bits of its offset are 0 or 15, or of version 2 and they are neither; in
  every other case the other version is selected, so that decoding fails or yields a key of
  the other version.
\<close>

theorem key_inference:
  assumes "valid_key k"
  shows "\<exists>b. pack k = Inr b \<and>
     (if (version k = 1 \<and> (offset_k k AND 0xF = 0 \<or> offset_k k AND 0xF = 15)) \<or>
         (version k = 2 \<and> offset_k k AND 0xF \<noteq> 0 \<and> offset_k k AND 0xF \<noteq> 15)
      then unpack b None = Inr k
      else unpack b None = unpack b (Some (3 - version k)) \<and>
           (case unpack b None of Inl e \<Rightarrow> True | Inr k' \<Rightarrow> version k' \<noteq> version k))"
proof -
  let ?b = "le_bytes 4 (dirid k) @ le_bytes 4 (objid k) @ le_bytes 8 (packed_word k)"
  have v: "version k = 1 \<or> version k = 2" using assms by (auto simp: valid_key_def)
  have rt: "unpack ?b (Some (version k)) = Inr k"
    using key_roundtrip[OF assms] pack_valid[OF assms] by simp
  have low: "packed_word k AND 0xF = offset_k k AND 0xF"
    by (rule packed_word_fields(5)[OF assms])
  have inferred: "unpack ?b None =
      unpack ?b (Some (if offset_k k AND 0xF = 0 \<or> offset_k k AND 0xF = 15 then 1 else 2))"
    by (simp add: unpack_packed[OF assms] low Let_def)
  have ver: "version k' = (if v = 1 then 1 else 2)" if "unpack ?b (Some v) = Inr k'" for v k'
    using that by (auto simp: unpack_packed[OF assms] Let_def mkKey_def split: if_splits option.splits)
  show ?thesis
  proof (intro exI conjI)
    show "pack k = Inr ?b" by (rule pack_valid[OF assms])
    show "if (version k = 1 \<and> (offset_k k AND 0xF = 0 \<or> offset_k k AND 0xF = 15)) \<or>
         (version k = 2 \<and> offset_k k AND 0xF \<noteq> 0 \<and> offset_k k AND 0xF \<noteq> 15)
      then unpack ?b None = Inr k
      else unpack ?b None = unpack ?b (Some (3 - version k)) \<and>
           (case unpack ?b None of Inl e \<Rightarrow> True | Inr k' \<Rightarrow> version k' \<noteq> version k)"
    proof (cases "offset_k k AND 0xF = 0 \<or> offset_k k AND 0xF = 15")
      case True
      then have i: "unpack ?b None = unpack ?b (Some 1)" using inferred by simp
      show ?thesis
      proof (cases "version k = 1")
        case True
        with i rt \<open>offset_k k AND 0xF = 0 \<or> offset_k k AND 0xF = 15\<close> show ?thesis by auto
      next
        case False
        with v have v2: "version k = 2" by simp
        have "version k' \<noteq> version k" if "unpack ?b None = Inr k'" for k'
          using ver[of 1 k'] that i v2 by simp
        then show ?thesis using i v2 True by (auto split: sum.splits)
      qed
    next
      case False
      then have i: "unpack ?b None = unpack ?b (Some 2)" using inferred by simp
      show ?thesis
      proof (cases "version k = 2")
        case True
        with i rt False show ?thesis by auto
      next
        case nv: False
        with v have v1: "version k = 1" by simp
        have "version k' \<noteq> version k" if "unpack ?b None = Inr k'" for k'
          using ver[of 2 k'] that i v1 by simp
        then show ?thesis using i v1 False by (auto split: sum.splits)
      qed
    qed
  qed
qed

theorem key_inference_witness:
  "pack (mkKey 1 2 16 DIRECT 2) = Inr [1, 0, 0, 0, 2, 0, 0, 0, 16, 0, 0, 0, 0, 0, 0, 0x20] \<and>
   unpack [1, 0, 0, 0, 2, 0, 0, 0, 16, 0, 0, 0, 0, 0, 0, 0x20] None = Inl KeyError"
proof -
  have v: "valid_key (mkKey 1 2 16 DIRECT 2)" by (simp add: valid_key_def mkKey_def)
  have p: "pack (mkKey 1 2 16 DIRECT 2) = Inr [1, 0, 0, 0, 2, 0, 0, 0, 16, 0, 0, 0, 0, 0, 0, 0x20]"
    by code_simp
  have a: "(16 :: int) AND 15 = 0" by simp
  from key_inference[OF v] p a
  have "unpack [1, 0, 0, 0, 2, 0, 0, 0, 16, 0, 0, 0, 0, 0, 0, 0x20] None =
        unpack [1, 0, 0, 0, 2, 0, 0, 0, 16, 0, 0, 0, 0, 0, 0, 0x20] (Some 1)"
    by (simp add: mkKey_def)
  moreover have "unpack [1, 0, 0, 0, 2, 0, 0, 0, 16, 0, 0, 0, 0, 0, 0, 0x20] (Some 1) = Inl KeyError"
    by code_simp
  ultimately show ?thesis using p by simp
qed

section \<open>RangeList\<close>


lemma rl_inv_Nil [simp]: "rl_inv []"
  by (simp add: rl_inv_def)

lemma rl_inv_snoc:
  "rl_inv (rs @ [r]) \<longleftrightarrow> rl_inv rs \<and> 0 \<le> size' r \<and> (\<forall>a \<in> set rs. gap_before a r)"
  by (auto simp: rl_inv_def sorted_wrt_append)

lemma rl_inv_append_last:
  assumes "rl_inv rs" "rs \<noteq> []" "start (last rs) + size' (last rs) < st" "0 \<le> sz"
  shows "rl_inv (rs @ [\<lparr>start = st, size' = sz\<rparr>])"
proof -
  obtain bs l where rs: "rs = bs @ [l]" using assms(2) by (metis append_butlast_last_id)
  have inv: "rl_inv bs" "0 \<le> size' l" "\<forall>a \<in> set bs. gap_before a l"
    using assms(1) unfolding rs rl_inv_snoc by auto
  have "\<forall>a \<in> set rs. gap_before a \<lparr>start = st, size' = sz\<rparr>"
    using inv assms(3) unfolding rs by (auto simp: gap_before_def)
  then show ?thesis using assms(1,4) by (simp add: rl_inv_snoc)
qed

lemma rl_inv_extend_last:
  assumes "rl_inv rs" "rs \<noteq> []" "0 \<le> sz"
  shows "rl_inv (butlast rs @ [(last rs)\<lparr>size' := size' (last rs) + sz\<rparr>])"
proof -
  obtain bs l where rs: "rs = bs @ [l]" using assms(2) by (metis append_butlast_last_id)
  have inv: "rl_inv bs" "0 \<le> size' l" "\<forall>a \<in> set bs. gap_before a l"
    using assms(1) unfolding rs rl_inv_snoc by auto
  show ?thesis using inv assms(3) unfolding rs by (auto simp: rl_inv_snoc gap_before_def)
qed

lemma add_keeps_inv:
  assumes "rl_inv (items rl)" "0 \<le> sz" "add rl st sz = Inr rl'"
  shows "rl_inv (items rl')"
proof (cases "items rl = []")
  case True
  with assms show ?thesis by (auto simp: add_def rl_inv_def)
next
  case False
  show ?thesis
  proof (cases "start (last (items rl)) + size' (last (items rl)) = st")
    case True
    with False assms(3) have "items rl' = butlast (items rl) @ [(last (items rl))\<lparr>size' := size' (last (items rl)) + sz\<rparr>]"
      by (auto simp: add_def Let_def)
    then show ?thesis using rl_inv_extend_last[OF assms(1) False assms(2)] by simp
  next
    case ne: False
    with False assms(3) have lt: "start (last (items rl)) + size' (last (items rl)) < st"
      and "items rl' = items rl @ [\<lparr>start = st, size' = sz\<rparr>]"
      by (auto simp: add_def Let_def split: if_splits)
    then show ?thesis using rl_inv_append_last[OF assms(1) False lt assms(2)] by simp
  qed
qed

lemma add_succeeds:
  assumes "case last_end rl of None \<Rightarrow> True | Some e \<Rightarrow> e \<le> st"
  shows "\<exists>rl'. add rl st sz = Inr rl'"
  using assms by (auto simp: add_def last_end_def Let_def split: if_splits)

lemma add_all_inv:
  assumes "rl_inv (items rl)" "preorder rl cs" "\<forall>(st, sz) \<in> set cs. 0 \<le> sz"
  shows "\<exists>rl'. add_all rl cs = Inr rl' \<and> rl_inv (items rl')"
  using assms
proof (induction cs arbitrary: rl)
  case Nil
  then show ?case by simp
next
  case (Cons c cs)
  obtain st sz where c: "c = (st, sz)" by (cases c)
  from Cons.prems(2) obtain rl1 where a: "add rl st sz = Inr rl1" and p: "preorder rl1 cs"
    unfolding c by (auto split: sum.splits)
  have "0 \<le> sz" using Cons.prems(3) c by auto
  then have "rl_inv (items rl1)" using add_keeps_inv[OF Cons.prems(1) _ a] by simp
  from Cons.IH[OF this p] Cons.prems(3) show ?case unfolding c using a by simp
qed

lemma preorder_take: "preorder rl cs \<Longrightarrow> preorder rl (take n cs)"
proof (induction cs arbitrary: rl n)
  case Nil
  then show ?case by simp
next
  case (Cons c cs)
  obtain st sz where c: "c = (st, sz)" by (cases c)
  show ?case
  proof (cases n)
    case 0
    then show ?thesis by simp
  next
    case (Suc m)
    with Cons show ?thesis unfolding c by (auto split: sum.splits)
  qed
qed

lemma rl_inv_nth:
  assumes "rl_inv rs" "i < j" "j < length rs"
  shows "start (rs ! i) + size' (rs ! i) < start (rs ! j)" "0 \<le> size' (rs ! i)" "0 \<le> size' (rs ! j)"
proof -
  have "gap_before (rs ! i) (rs ! j)"
    using assms by (auto simp: rl_inv_def sorted_wrt_iff_nth_less)
  then show "start (rs ! i) + size' (rs ! i) < start (rs ! j)" by (simp add: gap_before_def)
  show "0 \<le> size' (rs ! i)" "0 \<le> size' (rs ! j)" using assms by (auto simp: rl_inv_def)
qed

lemma rl_inv_sorted: "rl_inv rs \<Longrightarrow> sorted_by_start rs"
  unfolding sorted_by_start_def sorted_iff_nth_mono_less
  using rl_inv_nth by fastforce

lemma rl_inv_disjoint: assumes "rl_inv rs" shows "pairwise_disjoint rs"
proof -
  have "range_set (rs ! i) \<inter> range_set (rs ! j) = {}" if "i < j" "j < length rs" for i j
    using rl_inv_nth[OF assms that] by (auto simp: range_set_def)
  then have "range_set (rs ! i) \<inter> range_set (rs ! j) = {}" if "i \<noteq> j" "i < length rs" "j < length rs" for i j
    using that by (cases "i < j") (auto simp: Int_commute not_less le_less)
  then show ?thesis by (auto simp: pairwise_disjoint_def)
qed

lemma rl_inv_no_adjacent: "rl_inv rs \<Longrightarrow> no_adjacent rs"
  unfolding no_adjacent_def using rl_inv_nth(1)[of rs _ "Suc _"] by fastforce

text \<open>
  Claim C7, amended. \<open>add\<close> extends the last record when the new start equals its end,
  appends a record when the start is greater, and fails on a smaller start. For every
  sequence of calls with non-negative sizes that respects the preorder, after every call
  the list is sorted by start, pairwise disjoint and without two adjacent records that
  touch.
\<close>

theorem rangelist_add_contract:
  assumes "list_all (\<lambda>(st, sz). 0 \<le> sz) cs" and "preorder RangeList_init cs"
  shows "(\<forall>n \<le> length cs. \<exists>rl'. add_all RangeList_init (take n cs) = Inr rl' \<and>
            sorted_by_start (items rl') \<and> pairwise_disjoint (items rl') \<and> no_adjacent (items rl')) \<and>
         (items rl = [] \<longrightarrow>
            add rl st sz = Inr (rl\<lparr>items := [\<lparr>start = st, size' = sz\<rparr>]\<rparr>)) \<and>
         (items rl \<noteq> [] \<and> start (last (items rl)) + size' (last (items rl)) = st \<longrightarrow>
            add rl st sz =
              Inr (rl\<lparr>items := butlast (items rl) @
                              [(last (items rl))\<lparr>size' := size' (last (items rl)) + sz\<rparr>]\<rparr>)) \<and>
         (items rl \<noteq> [] \<and> start (last (items rl)) + size' (last (items rl)) < st \<longrightarrow>
            add rl st sz = Inr (rl\<lparr>items := items rl @ [\<lparr>start = st, size' = sz\<rparr>]\<rparr>)) \<and>
         (items rl \<noteq> [] \<and> st < start (last (items rl)) + size' (last (items rl)) \<longrightarrow>
            add rl st sz = Inl AssertionError)"
proof -
  have seq: "\<exists>rl'. add_all RangeList_init (take n cs) = Inr rl' \<and>
            sorted_by_start (items rl') \<and> pairwise_disjoint (items rl') \<and> no_adjacent (items rl')"
    for n
  proof -
    have nn: "\<forall>(st, sz) \<in> set (take n cs). 0 \<le> sz"
      using assms(1) by (auto simp: list_all_iff dest: in_set_takeD)
    have "rl_inv (items RangeList_init)" by (simp add: RangeList_init_def)
    from add_all_inv[OF this preorder_take[OF assms(2)] nn]
    obtain rl' where "add_all RangeList_init (take n cs) = Inr rl'" "rl_inv (items rl')" by blast
    then show ?thesis
      using rl_inv_sorted rl_inv_disjoint rl_inv_no_adjacent by blast
  qed
  have step: "(items rl = [] \<longrightarrow>
            add rl st sz = Inr (rl\<lparr>items := [\<lparr>start = st, size' = sz\<rparr>]\<rparr>)) \<and>
         (items rl \<noteq> [] \<and> start (last (items rl)) + size' (last (items rl)) = st \<longrightarrow>
            add rl st sz =
              Inr (rl\<lparr>items := butlast (items rl) @
                              [(last (items rl))\<lparr>size' := size' (last (items rl)) + sz\<rparr>]\<rparr>)) \<and>
         (items rl \<noteq> [] \<and> start (last (items rl)) + size' (last (items rl)) < st \<longrightarrow>
            add rl st sz = Inr (rl\<lparr>items := items rl @ [\<lparr>start = st, size' = sz\<rparr>]\<rparr>)) \<and>
         (items rl \<noteq> [] \<and> st < start (last (items rl)) + size' (last (items rl)) \<longrightarrow>
            add rl st sz = Inl AssertionError)"
    by (simp add: add_def Let_def)
  from seq step show ?thesis by blast
qed

theorem rangelist_add_contract_witness:
  "add_all RangeList_init [(0, 5), (5, 3), (10, 2)] =
     Inr \<lparr>items = [\<lparr>start = 0, size' = 8\<rparr>, \<lparr>start = 10, size' = 2\<rparr>]\<rparr> \<and>
   sorted_by_start [\<lparr>start = 0, size' = 8\<rparr>, \<lparr>start = 10, size' = 2\<rparr>] \<and>
   pairwise_disjoint [\<lparr>start = 0, size' = 8\<rparr>, \<lparr>start = 10, size' = 2\<rparr>] \<and>
   no_adjacent [\<lparr>start = 0, size' = 8\<rparr>, \<lparr>start = 10, size' = 2\<rparr>] \<and>
   add \<lparr>items = [\<lparr>start = 0, size' = 8\<rparr>, \<lparr>start = 10, size' = 2\<rparr>]\<rparr> 11 1 = Inl AssertionError"
proof -
  let ?cs = "[(0, 5), (5, 3), (10, 2)] :: (int \<times> int) list"
  have run: "add_all RangeList_init ?cs =
     Inr \<lparr>items = [\<lparr>start = 0, size' = 8\<rparr>, \<lparr>start = 10, size' = 2\<rparr>]\<rparr>"
    by (simp add: RangeList_init_def add_def)
  have h1: "list_all (\<lambda>(st, sz). 0 \<le> sz) ?cs" by simp
  have h2: "preorder RangeList_init ?cs"
    by (simp add: RangeList_init_def add_def last_end_def)
  note inst = rangelist_add_contract[OF h1 h2,
      of "\<lparr>items = [\<lparr>start = 0, size' = 8\<rparr>, \<lparr>start = 10, size' = 2\<rparr>]\<rparr>" 11 1]
  from inst have "\<exists>rl'. add_all RangeList_init (take 3 ?cs) = Inr rl' \<and>
            sorted_by_start (items rl') \<and> pairwise_disjoint (items rl') \<and> no_adjacent (items rl')"
    by (elim conjE allE[of _ 3]) simp
  with run have props: "sorted_by_start [\<lparr>start = 0, size' = 8\<rparr>, \<lparr>start = 10, size' = 2\<rparr>] \<and>
   pairwise_disjoint [\<lparr>start = 0, size' = 8\<rparr>, \<lparr>start = 10, size' = 2\<rparr>] \<and>
   no_adjacent [\<lparr>start = 0, size' = 8\<rparr>, \<lparr>start = 10, size' = 2\<rparr>]"
    by auto
  from inst have "add \<lparr>items = [\<lparr>start = 0, size' = 8\<rparr>, \<lparr>start = 10, size' = 2\<rparr>]\<rparr> 11 1 = Inl AssertionError"
    by simp
  with run props show ?thesis by simp
qed

text \<open>
  With a negative size the preorder contract alone does not keep the list sorted: the
  three calls below all start at or after the end of the last record.
\<close>

theorem rangelist_negative_size_counterexample:
  "preorder RangeList_init [(10, - 5), (5, 3), (9, 5)] \<and>
   add_all RangeList_init [(10, - 5), (5, 3), (9, 5)] =
     Inr \<lparr>items = [\<lparr>start = 10, size' = - 2\<rparr>, \<lparr>start = 9, size' = 5\<rparr>]\<rparr> \<and>
   \<not> sorted_by_start [\<lparr>start = 10, size' = - 2\<rparr>, \<lparr>start = 9, size' = 5\<rparr>]"
  by (simp add: RangeList_init_def add_def last_end_def sorted_by_start_def)

section \<open>RescueMap lookup\<close>

lemma contiguous_nth:
  assumes "contiguous a"
  shows "i < length a \<Longrightarrow> 0 < fst (snd (a ! i))"
    and "Suc i < length a \<Longrightarrow> fst (a ! Suc i) = fst (a ! i) + fst (snd (a ! i))"
  using assms
proof (induction a arbitrary: i rule: contiguous.induct)
  case 1
  { case 1 then show ?case by simp }
  { case 2 then show ?case by simp }
next
  case (2 e)
  { case 1 then show ?case by simp }
  { case 2 then show ?case by simp }
next
  case (3 e e' es)
  { case 1 then show ?case using 3(1)[of "i - 1"] by (cases i) auto }
  { case 2 then show ?case using 3(2)[of "i - 1"] by (cases i) auto }
qed

lemma contiguous_mono:
  assumes "contiguous a" "i < j" "j < length a"
  shows "fst (a ! i) + fst (snd (a ! i)) \<le> fst (a ! j)"
  using assms(2,3)
proof (induction j)
  case 0
  then show ?case by simp
next
  case (Suc j)
  show ?case
  proof (cases "i = j")
    case True
    then show ?thesis using contiguous_nth(2)[OF assms(1), of j] Suc.prems by simp
  next
    case False
    then have "fst (a ! i) + fst (snd (a ! i)) \<le> fst (a ! j)" using Suc by simp
    moreover have "fst (a ! j) < fst (a ! Suc j)"
      using contiguous_nth[OF assms(1), of j] Suc.prems by simp
    ultimately show ?thesis by simp
  qed
qed

lemma contiguous_strict:
  assumes "contiguous a" "i < j" "j < length a"
  shows "fst (a ! i) < fst (a ! j)"
  using contiguous_mono[OF assms] contiguous_nth(1)[OF assms(1), of i] assms by simp

lemma bisect_left_spec:
  assumes "contiguous a" "lo \<le> hi" "hi \<le> length a"
    "\<forall>i < lo. fst (a ! i) < x" "\<forall>i. hi \<le> i \<and> i < length a \<longrightarrow> x \<le> fst (a ! i)"
  shows "bisect_left a x lo hi \<le> length a \<and>
         (\<forall>i < bisect_left a x lo hi. fst (a ! i) < x) \<and>
         (\<forall>i. bisect_left a x lo hi \<le> i \<and> i < length a \<longrightarrow> x \<le> fst (a ! i))"
  using assms
proof (induction a x lo hi rule: bisect_left.induct)
  case (1 a x lo hi)
  show ?case
  proof (cases "lo < hi")
    case False
    then have "bisect_left a x lo hi = lo" by (simp add: bisect_left.simps[of a x lo hi])
    moreover from False "1.prems" have "lo = hi" by simp
    ultimately show ?thesis using "1.prems" by simp
  next
    case True
    define mid where "mid = (lo + hi) div 2"
    have mid: "lo \<le> mid" "mid < hi" using True by (auto simp: mid_def)
    show ?thesis
    proof (cases "fst (a ! mid) < x")
      case lt: True
      have below: "\<forall>i < mid + 1. fst (a ! i) < x"
      proof (intro allI impI)
        fix i assume "i < mid + 1"
        then consider "i = mid" | "i < mid" by linarith
        then show "fst (a ! i) < x"
        proof cases
          case 1 then show ?thesis using lt by simp
        next
          case 2
          then have "fst (a ! i) < fst (a ! mid)"
            using contiguous_strict[OF "1.prems"(1), of i mid] mid "1.prems"(3) by simp
          then show ?thesis using lt by simp
        qed
      qed
      have "bisect_left a x lo hi = bisect_left a x (mid + 1) hi"
        using True lt by (simp add: bisect_left.simps[of a x lo hi] mid_def Let_def)
      moreover have "bisect_left a x (mid + 1) hi \<le> length a \<and>
         (\<forall>i < bisect_left a x (mid + 1) hi. fst (a ! i) < x) \<and>
         (\<forall>i. bisect_left a x (mid + 1) hi \<le> i \<and> i < length a \<longrightarrow> x \<le> fst (a ! i))"
        using "1.IH"(1)[OF True refl] lt "1.prems" mid below
        by (simp add: mid_def)
      ultimately show ?thesis by simp
    next
      case ge: False
      have above: "\<forall>i. mid \<le> i \<and> i < length a \<longrightarrow> x \<le> fst (a ! i)"
      proof (intro allI impI)
        fix i assume i: "mid \<le> i \<and> i < length a"
        then consider "i = mid" | "mid < i" by linarith
        then show "x \<le> fst (a ! i)"
        proof cases
          case 1 then show ?thesis using ge by simp
        next
          case 2
          then have "fst (a ! mid) < fst (a ! i)"
            using contiguous_strict[OF "1.prems"(1), of mid i] i by simp
          then show ?thesis using ge by simp
        qed
      qed
      have "bisect_left a x lo hi = bisect_left a x lo mid"
        using True ge by (simp add: bisect_left.simps[of a x lo hi] mid_def Let_def)
      moreover have "bisect_left a x lo mid \<le> length a \<and>
         (\<forall>i < bisect_left a x lo mid. fst (a ! i) < x) \<and>
         (\<forall>i. bisect_left a x lo mid \<le> i \<and> i < length a \<longrightarrow> x \<le> fst (a ! i))"
        using "1.IH"(2)[OF True refl] ge "1.prems" mid above
        by (simp add: mid_def)
      ultimately show ?thesis by simp
    qed
  qed
qed

text \<open>
  Claim C6. On a map with at least one entry, positive sizes and no gaps, a lookup at
  \<open>position\<close> fails with \<open>ValueError\<close> when \<open>position + offset\<close> is before the first
  entry, fails (by the assertion) when it is at or past the end of the last entry, and
  otherwise returns the status of the entry with the greatest start not above it, which
  covers it.
\<close>

theorem getitem_lookup:
  assumes "rescue_map_inv m"
  shows "(position + offset m < fst (hd (ranges m)) \<longrightarrow> getitem m position = Inl ValueError) \<and>
         (RescueMap_size m \<le> position + offset m \<longrightarrow> getitem m position = Inl AssertionError) \<and>
         (fst (hd (ranges m)) \<le> position + offset m \<and> position + offset m < RescueMap_size m \<longrightarrow>
            (\<exists>e \<in> set (ranges m).
               fst e \<le> position + offset m \<and> position + offset m < fst e + fst (snd e) \<and>
               (\<forall>e' \<in> set (ranges m). fst e' \<le> position + offset m \<longrightarrow> fst e' \<le> fst e) \<and>
               getitem m position = Inr (snd (snd e))))"
proof -
  define a where "a = ranges m"
  define p where "p = position + offset m"
  define i where "i = bisect_left a p 0 (length a)"
  have ne: "a \<noteq> []" and c: "contiguous a" using assms by (auto simp: rescue_map_inv_def a_def)
  have len: "0 < length a" using ne by simp
  have spec: "i \<le> length a" "\<forall>j < i. fst (a ! j) < p" "\<forall>j. i \<le> j \<and> j < length a \<longrightarrow> p \<le> fst (a ! j)"
    using bisect_left_spec[OF c, of 0 "length a" p] by (auto simp: i_def)
  have g: "getitem m position =
     (if i \<noteq> length a \<and> fst (a ! i) = p then Inr (snd (snd (a ! i)))
      else if i \<noteq> 0 then
           (if fst (a ! (i - 1)) \<le> p \<and> fst (a ! (i - 1)) + fst (snd (a ! (i - 1))) > p
            then Inr (snd (snd (a ! (i - 1)))) else Inl AssertionError)
      else Inl ValueError)"
    by (simp add: getitem_def Let_def a_def p_def i_def)
  have hd: "fst (hd a) = fst (a ! 0)" using ne by (simp add: hd_conv_nth)
  have sz: "RescueMap_size m = fst (a ! (length a - 1)) + fst (snd (a ! (length a - 1)))"
    using ne by (simp add: RescueMap_size_def a_def last_conv_nth)
  have pos: "\<And>j. j < length a \<Longrightarrow> 0 < fst (snd (a ! j))" using contiguous_nth(1)[OF c] by simp
  have greatest: "\<forall>e' \<in> set a. fst e' \<le> p \<longrightarrow> fst e' \<le> fst (a ! j)"
    if j: "j < length a" and nxt: "\<forall>k. j < k \<and> k < length a \<longrightarrow> p < fst (a ! k)" for j
  proof (intro ballI impI)
    fix e' assume "e' \<in> set a" and le: "fst e' \<le> p"
    then obtain k where k: "k < length a" "e' = a ! k" by (auto simp: in_set_conv_nth)
    have "\<not> j < k" using nxt k le by auto
    then consider "k = j" | "k < j" by linarith
    then show "fst e' \<le> fst (a ! j)"
      using contiguous_strict[OF c, of k j] j k by cases auto
  qed
  have A: "getitem m position = Inl ValueError" if "p < fst (hd a)"
  proof -
    have "i = 0"
    proof (rule ccontr)
      assume "i \<noteq> 0"
      then have "fst (a ! 0) < p" using spec(2) by simp
      with that hd show False by simp
    qed
    moreover have "fst (a ! 0) \<noteq> p" using that hd by simp
    ultimately show ?thesis by (simp add: g)
  qed
  have B: "getitem m position = Inl AssertionError" if "RescueMap_size m \<le> p"
  proof -
    have lastlt: "fst (a ! (length a - 1)) < p" using that sz pos[of "length a - 1"] len by simp
    have "i = length a"
    proof (rule ccontr)
      assume "i \<noteq> length a"
      then have "i \<le> length a - 1" "length a - 1 < length a" using spec(1) len by auto
      then have "p \<le> fst (a ! (length a - 1))" using spec(3) by simp
      with lastlt show False by simp
    qed
    then show ?thesis using that sz len by (simp add: g)
  qed
  have C: "\<exists>e \<in> set a. fst e \<le> p \<and> p < fst e + fst (snd e) \<and>
               (\<forall>e' \<in> set a. fst e' \<le> p \<longrightarrow> fst e' \<le> fst e) \<and>
               getitem m position = Inr (snd (snd e))"
    if lo: "fst (hd a) \<le> p" and hi: "p < RescueMap_size m"
  proof (cases "i \<noteq> length a \<and> fst (a ! i) = p")
    case True
    then have il: "i < length a" using spec(1) by simp
    have "\<forall>k. i < k \<and> k < length a \<longrightarrow> p < fst (a ! k)"
      using contiguous_strict[OF c, of i] True by auto
    from greatest[OF il this] True il pos[OF il] show ?thesis
      by (intro bexI[of _ "a ! i"]) (auto simp: g)
  next
    case False
    have i0: "i \<noteq> 0"
    proof
      assume "i = 0"
      then have "p \<le> fst (a ! 0)" using spec(3) len by simp
      with lo hd have "fst (a ! 0) = p" by simp
      with False \<open>i = 0\<close> len show False by simp
    qed
    then have j: "i - 1 < length a" "i - 1 < i" using spec(1) by auto
    have below: "fst (a ! (i - 1)) < p" using spec(2) j by simp
    have cover: "p < fst (a ! (i - 1)) + fst (snd (a ! (i - 1)))"
    proof (cases "i = length a")
      case True
      then show ?thesis using hi sz by simp
    next
      case ne: False
      then have il: "i < length a" using spec(1) by simp
      then have "p \<le> fst (a ! i)" using spec(3) by simp
      moreover have "fst (a ! i) \<noteq> p" using False ne by simp
      moreover have "fst (a ! i) = fst (a ! (i - 1)) + fst (snd (a ! (i - 1)))"
        using contiguous_nth(2)[OF c, of "i - 1"] i0 il by simp
      ultimately show ?thesis by simp
    qed
    have nxt: "\<forall>k. i - 1 < k \<and> k < length a \<longrightarrow> p < fst (a ! k)"
    proof (intro allI impI)
      fix k assume k: "i - 1 < k \<and> k < length a"
      then have "fst (a ! (i - 1)) + fst (snd (a ! (i - 1))) \<le> fst (a ! k)"
        using contiguous_mono[OF c, of "i - 1" k] by simp
      with cover show "p < fst (a ! k)" by simp
    qed
    from greatest[OF j(1) nxt] below cover False i0 j show ?thesis
      by (intro bexI[of _ "a ! (i - 1)"]) (auto simp: g)
  qed
  show ?thesis using A B C unfolding a_def p_def by blast
qed

theorem getitem_lookup_witness:
  "rescue_map_inv \<lparr>ranges = [(0, 10, FINISHED), (10, 5, BAD)], offset = 2\<rparr> \<and>
   getitem \<lparr>ranges = [(0, 10, FINISHED), (10, 5, BAD)], offset = 2\<rparr> (- 3) = Inl ValueError \<and>
   getitem \<lparr>ranges = [(0, 10, FINISHED), (10, 5, BAD)], offset = 2\<rparr> 13 = Inl AssertionError \<and>
   getitem \<lparr>ranges = [(0, 10, FINISHED), (10, 5, BAD)], offset = 2\<rparr> 9 = Inr BAD"
proof -
  let ?m = "\<lparr>ranges = [(0, 10, FINISHED), (10, 5, BAD)], offset = 2\<rparr>"
  have inv: "rescue_map_inv ?m" by (simp add: rescue_map_inv_def)
  have a: "getitem ?m (- 3) = Inl ValueError"
    using getitem_lookup[OF inv, of "- 3"] by simp
  have b: "getitem ?m 13 = Inl AssertionError"
    using getitem_lookup[OF inv, of 13] by (simp add: RescueMap_size_def)
  have c: "getitem ?m 9 = Inr BAD"
    using getitem_lookup[OF inv, of 9] by (auto simp: RescueMap_size_def)
  from inv a b c show ?thesis by simp
qed

end
